theory Spec2Isabelle
  imports Main "HOL-Library.Sublist"
begin

section \<open>The recorder state machine (components/recorder/recorder-machine)\<close>

text \<open>
  The machine is an xstate machine: a finite control state together with a
  context record.  An event for which the current control state lists no
  transition is dropped: neither the control state nor the context changes.
  A transition without a target keeps the control state and only runs its
  action.  The counters are JavaScript numbers; they are modelled as
  integers, with the \<open>Math.max\<close> of \<open>chunkUploaded\<close> written out.
\<close>

datatype RecorderSource = Mic | Tab

record RecorderContext =
  source :: RecorderSource
  queuedChunks :: int
  uploadedChunks :: int
  error :: "string option"

datatype RecorderEvent =
    START RecorderSource
  | PAUSE
  | RESUME
  | STOP
  | RESET
  | CHUNK_QUEUED
  | CHUNK_UPLOADED
  | ERROR string

datatype RecorderState = Idle | Recording | Paused | Error

definition initialContext :: RecorderContext where
  "initialContext = \<lparr>source = Mic, queuedChunks = 0, uploadedChunks = 0, error = None\<rparr>"

fun setSource :: "RecorderContext \<Rightarrow> RecorderEvent \<Rightarrow> RecorderContext" where
  "setSource context (START src) =
     context\<lparr>source := src, queuedChunks := 0, uploadedChunks := 0, error := None\<rparr>"
| "setSource context _ = context"

definition resetContext :: "RecorderContext \<Rightarrow> RecorderContext" where
  "resetContext context = initialContext"

definition incrementQueued :: "RecorderContext \<Rightarrow> RecorderContext" where
  "incrementQueued context = context\<lparr>queuedChunks := queuedChunks context + 1\<rparr>"

definition chunkUploaded :: "RecorderContext \<Rightarrow> RecorderContext" where
  "chunkUploaded context =
     context\<lparr>queuedChunks := max (queuedChunks context - 1) 0,
              uploadedChunks := uploadedChunks context + 1\<rparr>"

fun captureError :: "RecorderContext \<Rightarrow> RecorderEvent \<Rightarrow> RecorderContext" where
  "captureError context (ERROR message) = context\<lparr>error := Some message\<rparr>"
| "captureError context _ = context\<lparr>error := error context\<rparr>"

type_synonym recorder = "RecorderState \<times> RecorderContext"

text \<open>
  One clause per entry of the \<open>states\<close> table of the source, in its order;
  the last clause is the dropped event.
\<close>

fun recorderMachine :: "recorder \<Rightarrow> RecorderEvent \<Rightarrow> recorder" where
  "recorderMachine (Idle, c) (START src) = (Recording, setSource c (START src))"
| "recorderMachine (Idle, c) RESET = (Idle, resetContext c)"
| "recorderMachine (Recording, c) PAUSE = (Paused, c)"
| "recorderMachine (Recording, c) STOP = (Idle, c)"
| "recorderMachine (Recording, c) CHUNK_QUEUED = (Recording, incrementQueued c)"
| "recorderMachine (Recording, c) CHUNK_UPLOADED = (Recording, chunkUploaded c)"
| "recorderMachine (Recording, c) (ERROR m) = (Error, captureError c (ERROR m))"
| "recorderMachine (Paused, c) RESUME = (Recording, c)"
| "recorderMachine (Paused, c) STOP = (Idle, c)"
| "recorderMachine (Paused, c) (ERROR m) = (Error, captureError c (ERROR m))"
| "recorderMachine (Error, c) RESET = (Idle, resetContext c)"
| "recorderMachine (s, c) _ = (s, c)"

definition initialRecorder :: recorder where
  "initialRecorder = (Idle, initialContext)"

section \<open>Strings\<close>

text \<open>
  JavaScript strings are modelled as lists of 8-bit code units, the Latin-1
  range of the UTF-16 code units of the source.  \<open>trim\<close> removes the white
  space of that range from both ends, \<open>toLowerCase\<close> maps the upper-case
  letters of that range to their lower-case forms, \<open>str_includes\<close> is substring
  search and \<open>split_on\<close> is \<open>String.prototype.split\<close> with a
  one-character separator.
\<close>

definition isWhiteSpace :: "char \<Rightarrow> bool" where
  "isWhiteSpace c = ((of_char c :: nat) \<in> {9, 10, 11, 12, 13, 32, 160})"

definition trim :: "string \<Rightarrow> string" where
  "trim s = rev (dropWhile isWhiteSpace (rev (dropWhile isWhiteSpace s)))"

definition lowerChar :: "char \<Rightarrow> char" where
  "lowerChar c =
     (let n = (of_char c :: nat) in
      if (65 \<le> n \<and> n \<le> 90) \<or> (192 \<le> n \<and> n \<le> 222 \<and> n \<noteq> 215)
      then char_of (n + 32) else c)"

definition toLowerCase :: "string \<Rightarrow> string" where
  "toLowerCase s = map lowerChar s"

text \<open>
  The number of bytes of \<open>Buffer.from(s)\<close>, which encodes in UTF-8: one byte
  for a code unit below 128 and two for the others of the range.
\<close>

definition utf8_length :: "string \<Rightarrow> nat" where
  "utf8_length s = sum_list (map (\<lambda>c. if (of_char c :: nat) < 128 then 1 else 2) s)"

fun str_includes :: "string \<Rightarrow> string \<Rightarrow> bool" where
  "str_includes [] p = (p = [])"
| "str_includes (x # xs) p = (prefix p (x # xs) \<or> str_includes xs p)"

fun split_on :: "char \<Rightarrow> string \<Rightarrow> string list" where
  "split_on sep [] = [[]]"
| "split_on sep (x # xs) =
     (if x = sep then [] # split_on sep xs
      else case split_on sep xs of
        [] \<Rightarrow> [[x]]
      | w # ws \<Rightarrow> (x # w) # ws)"

fun join :: "string \<Rightarrow> string list \<Rightarrow> string" where
  "join sep [] = []"
| "join sep [x] = x"
| "join sep (x # y # ys) = x @ sep @ join sep (y # ys)"

text \<open>\<open>split(/\r?\n/)\<close>: a line feed, with the carriage return before it when there is one, separates.\<close>

fun split_lines :: "string \<Rightarrow> string list" where
  "split_lines [] = [[]]"
| "split_lines [x] = (if x = CHR 0x0A then [[], []] else [[x]])"
| "split_lines (x # y # ys) =
     (if x = CHR 0x0D \<and> y = CHR 0x0A then [] # split_lines ys
      else if x = CHR 0x0A then [] # split_lines (y # ys)
      else case split_lines (y # ys) of
        [] \<Rightarrow> [[x]]
      | w # ws \<Rightarrow> (x # w) # ws)"

section \<open>Socket tokens (lib/socket-token)\<close>

record SocketTokenPayload =
  tok_sessionId :: string
  tok_userId :: string
  tok_exp :: int

text \<open>
  What the code takes from the Node platform, as parameters: the keyed hash
  \<open>createHmac("sha256", SECRET).update(body).digest("base64url")\<close>, base64url
  coding of buffers, \<open>JSON.stringify\<close> and \<open>JSON.parse\<close> at the payload
  type (\<open>None\<close> when parsing throws), and the two base64 operations of
  \<open>Buffer\<close> the relay uses on audio.
\<close>

record platform =
  hmac_sha256 :: "string \<Rightarrow> string"
  to_base64url :: "string \<Rightarrow> string"
  from_base64url :: "string \<Rightarrow> string"
  JSON_stringify :: "SocketTokenPayload \<Rightarrow> string"
  JSON_parse :: "string \<Rightarrow> SocketTokenPayload option"
  byteLength_base64 :: "string \<Rightarrow> nat"
  from_base64 :: "string \<Rightarrow> string"



definition decode :: "platform \<Rightarrow> string \<Rightarrow> SocketTokenPayload option" where
  "decode P token = JSON_parse P (from_base64url P token)"


text \<open>
  Every error the relay can answer with.  The first group are the
  \<open>throw new Error(...)\<close> of \<open>verifySocketToken\<close>; \<open>SignatureLengthMismatch\<close>
  is the \<open>RangeError\<close> of \<open>timingSafeEqual\<close> on buffers of different length
  and \<open>PayloadParseError\<close> the \<open>SyntaxError\<close> of \<open>JSON.parse\<close>.
\<close>

datatype relay_error =
    InvalidTokenFormat
  | InvalidTokenSignature
  | SignatureLengthMismatch
  | PayloadParseError
  | TokenExpired
  | TokenMismatch
  | InvalidTokenForChunkUpload
  | InvalidTokenForCompletion
  | MissingSessionIdOrToken
  | MissingSessionIdChunkOrToken
  | RateLimitExceeded
  | ChunkTooLarge
  | RecordingNotFound
  | FailedToFinalizeSession

text \<open>The message each error carries; the two errors of the platform carry the platform's.\<close>

fun error_message :: "relay_error \<Rightarrow> string" where
  "error_message InvalidTokenFormat = ''Invalid token format''"
| "error_message InvalidTokenSignature = ''Invalid token signature''"
| "error_message SignatureLengthMismatch = ''Input buffers must have the same byte length''"
| "error_message PayloadParseError = ''Unexpected token in JSON''"
| "error_message TokenExpired = ''Token expired''"
| "error_message TokenMismatch = ''Token mismatch''"
| "error_message InvalidTokenForChunkUpload = ''Invalid token for chunk upload''"
| "error_message InvalidTokenForCompletion = ''Invalid token for completion''"
| "error_message MissingSessionIdOrToken = ''Missing sessionId or token''"
| "error_message MissingSessionIdChunkOrToken = ''Missing sessionId, chunk, or token''"
| "error_message RateLimitExceeded = ''Rate limit exceeded''"
| "error_message ChunkTooLarge = ''Chunk too large''"
| "error_message RecordingNotFound = ''Recording not found''"
| "error_message FailedToFinalizeSession = ''Failed to finalize session''"

definition verifySocketToken :: "platform \<Rightarrow> int \<Rightarrow> string \<Rightarrow> relay_error + SocketTokenPayload" where
  "verifySocketToken P now token =
     (if CHR ''.'' \<notin> set token then Inl InvalidTokenFormat
      else case split_on CHR ''.'' token of
        body # signature # _ \<Rightarrow>
          (let expected = hmac_sha256 P body in
           if utf8_length signature \<noteq> utf8_length expected then Inl SignatureLengthMismatch
           else if signature \<noteq> expected then Inl InvalidTokenSignature
           else case decode P body of
             None \<Rightarrow> Inl PayloadParseError
           | Some payload \<Rightarrow>
               if tok_exp payload < now then Inl TokenExpired else Inr payload)
      | _ \<Rightarrow> Inl InvalidTokenFormat)"

text \<open>The errors that reject a token, as opposed to a request or a recording.\<close>

definition invalidTokenClass :: "relay_error \<Rightarrow> bool" where
  "invalidTokenClass e =
     (e = InvalidTokenFormat \<or> e = InvalidTokenSignature \<or> e = SignatureLengthMismatch \<or>
      e = PayloadParseError \<or> e = TokenExpired \<or> e = TokenMismatch \<or>
      e = InvalidTokenForChunkUpload \<or> e = InvalidTokenForCompletion)"

section \<open>The socket relay (server/socket)\<close>

subsection \<open>Persistent data and the relay's own state\<close>

datatype RecordingStatus =
  St_idle | St_recording | St_paused | St_processing | St_completed | St_failed

record RecordingSession =
  rec_userId :: string
  rec_transcript :: "string option"
  rec_status :: RecordingStatus
  rec_summary :: "string option"
  rec_summaryVersion :: int
  rec_completedAt :: "int option"

record AudioChunk =
  ac_sessionId :: string
  ac_order :: int
  ac_durationMs :: int
  ac_mimeType :: string
  ac_bytes :: string
  ac_transcript :: "string option"

record StatusEvent =
  se_sessionId :: string
  se_status :: RecordingStatus
  se_detail :: string

datatype target = ToSocket string | ToRoom string

datatype server_event =
    Session_joined string
  | Session_error "string option" relay_error
  | Chunk_transcribed string int string
  | Chunk_error string int string
  | Session_status string RecordingStatus "string option"

text \<open>
  The database tables the relay writes (the row id of an audio chunk is its
  position in the table), the module-level \<open>rateState\<close> map from socket id to
  \<open>(count, windowStart)\<close>, and the events emitted so far, oldest first.
\<close>

record relay =
  rateState :: "string \<rightharpoonup> (int \<times> int)"
  recordingSession :: "string \<rightharpoonup> RecordingSession"
  audioChunk :: "AudioChunk list"
  statusEvent :: "StatusEvent list"
  emitted :: "(target \<times> server_event) list"

record socket =
  socket_id :: string
  data_userId :: "string option"
  rooms :: "string list"

datatype ack = AckOk | AckFail relay_error

definition sessionRoom :: "string \<Rightarrow> string" where
  "sessionRoom sessionId = ''session:'' @ sessionId"

definition RATE_WINDOW_MS :: int where
  "RATE_WINDOW_MS = 10000"

definition MAX_CHUNKS_PER_WINDOW :: int where
  "MAX_CHUNKS_PER_WINDOW = 40"

definition GENERIC_MEETING_PHRASES :: "string list" where
  "GENERIC_MEETING_PHRASES =
     [''let's dive into today's agenda'',
      ''sales figures'',
      ''q3 financial'',
      ''quarterly projections'',
      ''align on the new targets'',
      ''board meeting next week'',
      ''welcome everyone to today's quarterly review'']"

definition isSuspiciousTranscript :: "string \<Rightarrow> bool" where
  "isSuspiciousTranscript text =
     (let normalized = toLowerCase text
      in list_ex (\<lambda>phrase. str_includes normalized phrase) GENERIC_MEETING_PHRASES)"

text \<open>\<open>checkRateLimit\<close> returns its verdict and the updated \<open>rateState\<close>.\<close>

definition checkRateLimit ::
  "int \<Rightarrow> (string \<rightharpoonup> (int \<times> int)) \<Rightarrow> string \<Rightarrow> bool \<times> (string \<rightharpoonup> (int \<times> int))" where
  "checkRateLimit now rs socketId =
     (case rs socketId of
        None \<Rightarrow> (True, rs(socketId \<mapsto> (1, now)))
      | Some (count, windowStart) \<Rightarrow>
          if now - windowStart > RATE_WINDOW_MS then (True, rs(socketId \<mapsto> (1, now)))
          else if count \<ge> MAX_CHUNKS_PER_WINDOW then (False, rs)
          else (True, rs(socketId \<mapsto> (count + 1, windowStart))))"

text \<open>
  \<open>prisma.recordingSession.findUnique({ where: { id, userId } })\<close> with the
  \<open>userId\<close> the socket carries (none before a successful join).
\<close>

definition findRecording :: "relay \<Rightarrow> string \<Rightarrow> string option \<Rightarrow> RecordingSession option" where
  "findRecording srv sessionId userId =
     (case recordingSession srv sessionId of
        None \<Rightarrow> None
      | Some r \<Rightarrow> if Some (rec_userId r) = userId then Some r else None)"

definition emit :: "target \<Rightarrow> server_event \<Rightarrow> relay \<Rightarrow> relay" where
  "emit to ev srv = srv\<lparr>emitted := emitted srv @ [(to, ev)]\<rparr>"

definition missing :: "string option \<Rightarrow> bool" where
  "missing v = (v = None \<or> v = Some [])"

subsection \<open>join-session\<close>

definition join_token_check ::
  "platform \<Rightarrow> int \<Rightarrow> string \<Rightarrow> string \<Rightarrow> relay_error + SocketTokenPayload" where
  "join_token_check P now sessionId token =
     (case verifySocketToken P now token of
        Inl e \<Rightarrow> Inl e
      | Inr payload \<Rightarrow>
          if tok_sessionId payload \<noteq> sessionId then Inl TokenMismatch else Inr payload)"

definition join_session ::
  "platform \<Rightarrow> int \<Rightarrow> socket \<Rightarrow> string \<Rightarrow> string option \<Rightarrow> relay \<Rightarrow> relay \<times> socket" where
  "join_session P now sock sessionId token srv =
     (let missing_args =
            (emit (ToSocket (socket_id sock)) (Session_error None MissingSessionIdOrToken) srv, sock)
      in case token of
        None \<Rightarrow> missing_args
      | Some tk \<Rightarrow>
          if sessionId = [] \<or> tk = [] then missing_args
          else case join_token_check P now sessionId tk of
            Inl e \<Rightarrow>
              (emit (ToSocket (socket_id sock)) (Session_error (Some sessionId) e) srv, sock)
          | Inr payload \<Rightarrow>
              (let sock1 = sock\<lparr>data_userId := Some (tok_userId payload)\<rparr> in
               case findRecording srv sessionId (data_userId sock1) of
                 None \<Rightarrow>
                   (emit (ToSocket (socket_id sock))
                      (Session_error (Some sessionId) RecordingNotFound) srv,
                    sock1)
               | Some recording \<Rightarrow>
                   (emit (ToSocket (socket_id sock)) (Session_joined sessionId) srv,
                    sock1\<lparr>rooms := sessionRoom sessionId # rooms sock1\<rparr>)))"

subsection \<open>audio-chunk\<close>

record ChunkPayload =
  cp_sessionId :: string
  cp_chunk :: string
  cp_index :: int
  cp_durationMs :: int
  cp_source :: RecorderSource
  cp_mimeType :: "string option"
  cp_token :: "string option"

text \<open>
  What \<open>transcribeChunk\<close> did: it threw, or it returned an object whose
  \<open>text\<close> may be absent.
\<close>

datatype transcription = Transcription_failed | Transcription "string option"

definition chunk_token_check ::
  "platform \<Rightarrow> int \<Rightarrow> socket \<Rightarrow> string \<Rightarrow> string \<Rightarrow> relay_error + SocketTokenPayload" where
  "chunk_token_check P now sock sessionId token =
     (case verifySocketToken P now token of
        Inl e \<Rightarrow> Inl e
      | Inr payloadData \<Rightarrow>
          if tok_sessionId payloadData \<noteq> sessionId \<or> Some (tok_userId payloadData) \<noteq> data_userId sock
          then Inl InvalidTokenForChunkUpload else Inr payloadData)"

text \<open>
  The second \<open>try\<close> block of the handler: everything from the lookup of the
  recording to the acknowledgement.  Database calls are taken to succeed; the
  one \<open>throw\<close> of the block itself is the missing recording.
\<close>

definition store_chunk ::
  "platform \<Rightarrow> (string \<Rightarrow> transcription) \<Rightarrow> socket \<Rightarrow> ChunkPayload \<Rightarrow> relay \<Rightarrow> relay \<times> ack" where
  "store_chunk P transcribeChunk sock payload srv =
     (let sessionId = cp_sessionId payload; chunk = cp_chunk payload; index = cp_index payload in
      case findRecording srv sessionId (data_userId sock) of
        None \<Rightarrow>
          (emit (ToSocket (socket_id sock)) (Chunk_error sessionId index ''Failed to process chunk'') srv,
           AckFail RecordingNotFound)
      | Some recording \<Rightarrow>
          (let createdChunk_id = length (audioChunk srv);
               srv1 = srv\<lparr>audioChunk := audioChunk srv @
                        [\<lparr>ac_sessionId = sessionId, ac_order = index,
                          ac_durationMs = cp_durationMs payload,
                          ac_mimeType = (case cp_mimeType payload of
                                           None \<Rightarrow> ''audio/webm;codecs=opus'' | Some m \<Rightarrow> m),
                          ac_bytes = from_base64 P chunk, ac_transcript = None\<rparr>]\<rparr>;
               transcriptText0 =
                 (case transcribeChunk chunk of
                    Transcription_failed \<Rightarrow> []
                  | Transcription None \<Rightarrow> []
                  | Transcription (Some text) \<Rightarrow> trim text);
               transcriptText =
                 (if transcriptText0 \<noteq> [] \<and> isSuspiciousTranscript transcriptText0
                  then [] else transcriptText0);
               srv2 = (if transcriptText \<noteq> []
                       then srv1\<lparr>audioChunk := (audioChunk srv1)
                              [createdChunk_id :=
                                 (audioChunk srv1 ! createdChunk_id)\<lparr>ac_transcript := Some transcriptText\<rparr>]\<rparr>
                       else srv1);
               updatedTranscript =
                 (if transcriptText \<noteq> []
                  then Some (join [CHR 0x0A]
                         (filter (\<lambda>s. s \<noteq> [])
                            [case rec_transcript recording of None \<Rightarrow> [] | Some t \<Rightarrow> t,
                             transcriptText]))
                  else rec_transcript recording);
               set_transcript =
                 (updatedTranscript \<noteq> None \<and> updatedTranscript \<noteq> rec_transcript recording);
               set_status = (rec_status recording \<noteq> St_recording);
               srv3 = (if set_status
                       then srv2\<lparr>statusEvent := statusEvent srv2 @
                              [\<lparr>se_sessionId = sessionId, se_status = St_recording,
                                se_detail = ''Socket stream started''\<rparr>]\<rparr>
                       else srv2);
               recording1 = (if set_transcript
                             then recording\<lparr>rec_transcript := updatedTranscript\<rparr> else recording);
               recording2 = (if set_status
                             then recording1\<lparr>rec_status := St_recording\<rparr> else recording1);
               srv4 = (if set_transcript \<or> set_status
                       then srv3\<lparr>recordingSession := (recordingSession srv3)(sessionId \<mapsto> recording2)\<rparr>
                       else srv3);
               srv5 = emit (ToRoom (sessionRoom sessionId))
                        (Chunk_transcribed sessionId index transcriptText) srv4
           in (srv5, AckOk)))"

text \<open>The handler: the four gates, in the order of the source, then \<open>store_chunk\<close>.\<close>

definition audio_chunk ::
  "platform \<Rightarrow> (string \<Rightarrow> transcription) \<Rightarrow> int \<Rightarrow> socket \<Rightarrow> ChunkPayload \<Rightarrow> relay \<Rightarrow> relay \<times> ack" where
  "audio_chunk P transcribeChunk now sock payload srv =
     (case cp_token payload of
        None \<Rightarrow> (srv, AckFail MissingSessionIdChunkOrToken)
      | Some token \<Rightarrow>
          if cp_sessionId payload = [] \<or> cp_chunk payload = [] \<or> token = [] then
            (srv, AckFail MissingSessionIdChunkOrToken)
          else
            (let (allowed, rs) = checkRateLimit now (rateState srv) (socket_id sock);
                 srv1 = srv\<lparr>rateState := rs\<rparr> in
             if \<not> allowed then (srv1, AckFail RateLimitExceeded)
             else if byteLength_base64 P (cp_chunk payload) > 2 * 1024 * 1024 then
               (srv1, AckFail ChunkTooLarge)
             else case chunk_token_check P now sock (cp_sessionId payload) token of
               Inl e \<Rightarrow> (srv1, AckFail e)
             | Inr payloadData \<Rightarrow> store_chunk P transcribeChunk sock payload srv1))"

subsection \<open>Session completion: the socket handler and the REST route\<close>

text \<open>
  \<open>summarizeTranscript\<close> is the summarisation service: \<open>None\<close> when it
  throws, otherwise the summary, which is empty when the service is not
  configured.
\<close>

definition complete_token_check ::
  "platform \<Rightarrow> int \<Rightarrow> socket \<Rightarrow> string \<Rightarrow> string \<Rightarrow> relay_error + SocketTokenPayload" where
  "complete_token_check P now sock sessionId token =
     (case verifySocketToken P now token of
        Inl e \<Rightarrow> Inl e
      | Inr data \<Rightarrow>
          if tok_sessionId data \<noteq> sessionId \<or> Some (tok_userId data) \<noteq> data_userId sock
          then Inl InvalidTokenForCompletion else Inr data)"

text \<open>The summary both paths start from: the stored one, replaced by the service's when the transcript is not blank and the service answers.\<close>

definition generated_summary :: "(string \<Rightarrow> string option) \<Rightarrow> RecordingSession \<Rightarrow> string" where
  "generated_summary summarizeTranscript recording =
     (let stored = (case rec_summary recording of None \<Rightarrow> [] | Some s \<Rightarrow> s);
          transcript = (case rec_transcript recording of None \<Rightarrow> [] | Some t \<Rightarrow> t)
      in if trim transcript \<noteq> []
         then (case summarizeTranscript transcript of None \<Rightarrow> stored | Some s \<Rightarrow> s)
         else stored)"

definition mark_processing :: "string \<Rightarrow> string \<Rightarrow> RecordingSession \<Rightarrow> relay \<Rightarrow> relay" where
  "mark_processing sessionId detail recording srv =
     srv\<lparr>recordingSession := (recordingSession srv)(sessionId \<mapsto> recording\<lparr>rec_status := St_processing\<rparr>),
         statusEvent := statusEvent srv @
           [\<lparr>se_sessionId = sessionId, se_status = St_processing, se_detail = detail\<rparr>]\<rparr>"

definition mark_completed ::
  "int \<Rightarrow> string \<Rightarrow> string \<Rightarrow> string \<Rightarrow> RecordingSession \<Rightarrow> relay \<Rightarrow> relay" where
  "mark_completed now sessionId detail summary recording srv =
     srv\<lparr>recordingSession := (recordingSession srv)(sessionId \<mapsto>
           recording\<lparr>rec_status := St_completed, rec_completedAt := Some now,
                     rec_summary := Some summary,
                     rec_summaryVersion := rec_summaryVersion recording + 1\<rparr>),
         statusEvent := statusEvent srv @
           [\<lparr>se_sessionId = sessionId, se_status = St_completed, se_detail = detail\<rparr>]\<rparr>"

definition complete_session ::
  "platform \<Rightarrow> (string \<Rightarrow> string option) \<Rightarrow> int \<Rightarrow> socket \<Rightarrow> string \<Rightarrow> string option \<Rightarrow> relay
     \<Rightarrow> relay \<times> ack" where
  "complete_session P summarizeTranscript now sock sessionId token srv =
     (case token of
        None \<Rightarrow> (srv, AckFail MissingSessionIdOrToken)
      | Some tk \<Rightarrow>
          if sessionId = [] \<or> tk = [] then (srv, AckFail MissingSessionIdOrToken)
          else case complete_token_check P now sock sessionId tk of
            Inl e \<Rightarrow> (srv, AckFail e)
          | Inr data \<Rightarrow>
              (case findRecording srv sessionId (data_userId sock) of
                 None \<Rightarrow>
                   (emit (ToSocket (socket_id sock))
                      (Session_error (Some sessionId) FailedToFinalizeSession) srv,
                    AckFail RecordingNotFound)
               | Some recording \<Rightarrow>
                   (let srv1 = mark_processing sessionId ''Socket summary request'' recording srv;
                        summaryText = generated_summary summarizeTranscript recording;
                        srv2 = mark_completed now sessionId ''Socket summary ready'' summaryText
                                 (recording\<lparr>rec_status := St_processing\<rparr>) srv1;
                        srv3 = emit (ToRoom (sessionRoom sessionId))
                                 (Session_status sessionId St_completed (Some summaryText)) srv2
                    in (srv3, AckOk))))"

text \<open>
  The REST route \<open>POST /api/recordings/[sessionId]/complete\<close>.  \<open>caller\<close> is
  the user id of the request's session, if it has one.
\<close>

datatype complete_response =
    Unauthorized_401
  | Not_found_404
  | Completed_200 string RecordingStatus "string option" "int option"

definition fallback_summary :: "RecordingSession \<Rightarrow> string" where
  "fallback_summary recording =
     (let transcript = trim (case rec_transcript recording of None \<Rightarrow> [] | Some t \<Rightarrow> t) in
      if transcript \<noteq> [] then
        (let teaser = join '' '' (take 2 (filter (\<lambda>s. s \<noteq> []) (split_lines transcript)))
         in if teaser \<noteq> [] then teaser else ''Summary unavailable'')
      else ''Summary unavailable'')"

definition complete_POST ::
  "(string \<Rightarrow> string option) \<Rightarrow> int \<Rightarrow> string option \<Rightarrow> string \<Rightarrow> relay \<Rightarrow> relay \<times> complete_response" where
  "complete_POST summarizeTranscript now caller sessionId srv =
     (case caller of
        None \<Rightarrow> (srv, Unauthorized_401)
      | Some user \<Rightarrow>
          (case recordingSession srv sessionId of
             None \<Rightarrow> (srv, Not_found_404)
           | Some recording \<Rightarrow>
               if rec_userId recording \<noteq> user then (srv, Not_found_404)
               else
                 (let srv1 = mark_processing sessionId ''Generating summary'' recording srv;
                      summary0 = generated_summary summarizeTranscript recording;
                      summary = (if summary0 = [] then fallback_summary recording else summary0);
                      srv2 = mark_completed now sessionId ''Summary ready'' summary
                               (recording\<lparr>rec_status := St_processing\<rparr>) srv1
                  in (srv2, Completed_200 sessionId St_completed (Some summary) (Some now)))))"

section \<open>The recorder hook (components/recorder/use-recorder)\<close>

text \<open>
  The hook runs on one thread: between two suspension points (\<open>await\<close>)
  its code runs without interruption.  The model is a step function on the
  hook's state, one step for each piece of code that runs uninterrupted: a
  call made by the user interface or the media recorder, up to its first
  suspension, or the resumption of \<open>flushQueue\<close> when the upload it awaits
  settles.  What the environment decides is an argument of the step: the
  value of \<open>navigator.onLine\<close> the step reads, and whether an upload
  succeeded.

  Two fields are not in the source and only record what happened: \<open>inflight\<close>
  lists the upload attempts that were started and have not settled, each with
  the chunk and the sequence index it was given, and \<open>delivered\<close> lists the
  attempts that succeeded, oldest first.
\<close>

record QueuedChunk =
  blob :: string
  durationMs :: nat

datatype SessionStatus =
  S_idle | S_recording | S_paused | S_processing | S_completed | S_failed

datatype NetworkStatus = Online | Offline | Unknown

datatype log_entry =
    Uploaded_chunk nat
  | Cleared_pending_chunks
  | Session_created string
  | Completion_requested_via_socket
  | Completion_requested_via_REST
  | Message string

record hook =
  machine :: recorder
  networkStatus :: NetworkStatus
  logs :: "log_entry list"
  uiError :: "string option"
  sessionId :: "string option"
  liveTranscripts :: "(int \<times> string) list"
  queueDepth :: nat
  sessionStatus :: SessionStatus
  mediaRecorder :: bool
  chunkQueue :: "QueuedChunk list"
  uploading :: bool
  flushPromise :: bool
  chunkCounter :: nat
  socketToken :: "string option"
  socketRef :: "bool option"
  joinedSession :: "string option"
  inflight :: "(QueuedChunk \<times> nat) list"
  delivered :: "(nat \<times> QueuedChunk) list"

definition CHUNK_MS :: nat where
  "CHUNK_MS = 30000"

definition initial_hook :: hook where
  "initial_hook =
     \<lparr>machine = initialRecorder, networkStatus = Unknown, logs = [], uiError = None,
      sessionId = None, liveTranscripts = [], queueDepth = 0, sessionStatus = S_idle,
      mediaRecorder = False, chunkQueue = [], uploading = False, flushPromise = False,
      chunkCounter = 0, socketToken = None, socketRef = None, joinedSession = None,
      inflight = [], delivered = []\<rparr>"

definition send :: "RecorderEvent \<Rightarrow> hook \<Rightarrow> hook" where
  "send ev h = h\<lparr>machine := recorderMachine (machine h) ev\<rparr>"

definition log :: "log_entry \<Rightarrow> hook \<Rightarrow> hook" where
  "log message h = h\<lparr>logs := take 25 (message # logs h)\<rparr>"

definition resetMedia :: "hook \<Rightarrow> hook" where
  "resetMedia h = h\<lparr>mediaRecorder := False, chunkQueue := [], uploading := False, chunkCounter := 0\<rparr>"

definition disconnectSocket :: "hook \<Rightarrow> hook" where
  "disconnectSocket h = h\<lparr>socketRef := None, joinedSession := None\<rparr>"

definition clearSessionState :: "bool \<Rightarrow> hook \<Rightarrow> hook" where
  "clearSessionState resetMachine h =
     (let h1 = resetMedia h;
          h2 = h1\<lparr>sessionId := None, socketToken := None, joinedSession := None\<rparr>;
          h3 = disconnectSocket h2;
          h4 = h3\<lparr>queueDepth := 0, chunkQueue := [], chunkCounter := 0,
                  liveTranscripts := [], logs := []\<rparr>
      in if resetMachine then send RESET h4 else h4)"

subsection \<open>flushQueue\<close>

text \<open>
  \<open>finish_flush\<close> is the end of the asynchronous body together with its
  \<open>finally\<close> handler.  The handler runs a few microtasks after the body
  ends, before the event loop takes its next task; a call of \<open>flushQueue\<close>
  that falls in between finds the promise still set and does nothing, so the
  executions of the source are executions of the model in which that call
  is left out.  \<open>flush_loop\<close> is the \<open>while\<close> loop from its test to the
  next \<open>await\<close>: it ends the flush, or starts one upload attempt and
  suspends.
\<close>

definition finish_flush :: "hook \<Rightarrow> hook" where
  "finish_flush h = h\<lparr>uploading := False, flushPromise := False\<rparr>"

definition flush_loop :: "bool \<Rightarrow> hook \<Rightarrow> hook" where
  "flush_loop onLine h =
     (if sessionId h \<noteq> None \<and> chunkQueue h \<noteq> [] then
        if \<not> onLine then finish_flush (h\<lparr>networkStatus := Offline\<rparr>)
        else case chunkQueue h of
          [] \<Rightarrow> finish_flush (h\<lparr>networkStatus := Online\<rparr>)
        | chunk # rest \<Rightarrow>
            (let index = chunkCounter h + 1 in
             h\<lparr>networkStatus := Online, chunkQueue := rest, chunkCounter := index,
               inflight := inflight h @ [(chunk, index)]\<rparr>)
      else finish_flush h)"

definition flushQueue :: "bool \<Rightarrow> hook \<Rightarrow> hook" where
  "flushQueue onLine h =
     (if flushPromise h then h
      else if sessionId h = None \<or> (chunkQueue h = [] \<and> \<not> uploading h) then h
      else flush_loop onLine (h\<lparr>uploading := True, flushPromise := True\<rparr>))"

text \<open>
  The resumption of the loop when the \<open>i\<close>-th outstanding attempt settles:
  the rest of the \<open>try\<close> block and the next turn of the loop when the upload
  succeeded, the \<open>catch\<close> block when it failed.
\<close>

definition upload_settled :: "nat \<Rightarrow> bool \<Rightarrow> bool \<Rightarrow> hook \<Rightarrow> hook" where
  "upload_settled i ok onLine h =
     (if i < length (inflight h) then
        (let chunk = fst (inflight h ! i); index = snd (inflight h ! i);
             h1 = h\<lparr>inflight := take i (inflight h) @ drop (Suc i) (inflight h)\<rparr> in
         if ok then
           (let h2 = log (Uploaded_chunk index) (send CHUNK_UPLOADED h1);
                h3 = h2\<lparr>queueDepth := length (chunkQueue h2),
                        delivered := delivered h2 @ [(index, chunk)]\<rparr>
            in flush_loop onLine h3)
         else
           (let h2 = send (ERROR ''Failed to upload chunk.'') (h1\<lparr>chunkQueue := chunk # chunkQueue h1\<rparr>);
                h3 = h2\<lparr>uiError := Some ''Failed to upload chunk. Will retry on next attempt.''\<rparr>
            in finish_flush h3))
      else h)"

definition discardPending :: "hook \<Rightarrow> hook" where
  "discardPending h =
     log Cleared_pending_chunks (send RESET (h\<lparr>chunkQueue := [], queueDepth := 0\<rparr>))"

definition handleData :: "string \<Rightarrow> bool \<Rightarrow> hook \<Rightarrow> hook" where
  "handleData data onLine h =
     (if data = [] then h
      else
        (let h1 = h\<lparr>chunkQueue := chunkQueue h @ [\<lparr>blob = data, durationMs = CHUNK_MS\<rparr>]\<rparr>;
             h2 = h1\<lparr>queueDepth := length (chunkQueue h1)\<rparr>
         in flushQueue onLine (send CHUNK_QUEUED h2)))"

text \<open>\<open>createRecordingSession\<close> on the server's answer, and the \<open>START\<close> that \<open>startRecording\<close> sends next.\<close>

definition session_created :: "string \<Rightarrow> string \<Rightarrow> RecorderSource \<Rightarrow> hook \<Rightarrow> hook" where
  "session_created recording_id token selectedSource h =
     send (START selectedSource)
       (log (Session_created recording_id)
          (h\<lparr>sessionId := Some recording_id, socketToken := Some token, liveTranscripts := []\<rparr>))"

subsection \<open>completeSession\<close>

text \<open>
  What was thrown at the hook: an \<open>Error\<close> with its message, or some other
  value.  An attempt on the socket path leaves the socket references as the
  attempt made them; the REST attempt only succeeds or throws.
\<close>

datatype thrown = Thrown_Error string | Thrown_other

datatype outcome = Succeeded | Failed thrown

record socket_attempt =
  att_outcome :: outcome
  att_socketRef :: "bool option"
  att_joinedSession :: "string option"

fun completion_message :: "thrown \<Rightarrow> string" where
  "completion_message (Thrown_Error message) = message"
| "completion_message Thrown_other = ''Failed to complete session''"

definition completeSession :: "bool \<Rightarrow> socket_attempt \<Rightarrow> outcome \<Rightarrow> hook \<Rightarrow> hook" where
  "completeSession canUseSocket viaSocket viaREST h =
     (if sessionId h = None then h
      else
        (let h1 = (if canUseSocket
                   then (let h0 = h\<lparr>socketRef := att_socketRef viaSocket,
                                    joinedSession := att_joinedSession viaSocket\<rparr>
                         in if att_outcome viaSocket = Succeeded
                            then log Completion_requested_via_socket h0 else h0)
                   else h);
             socketSucceeded = (canUseSocket \<and> att_outcome viaSocket = Succeeded);
             completionSucceeded = (socketSucceeded \<or> viaREST = Succeeded);
             h2 = (if socketSucceeded then h1
                   else case viaREST of
                     Succeeded \<Rightarrow> log Completion_requested_via_REST h1
                   | Failed err \<Rightarrow>
                       log (Message (completion_message err))
                         (h1\<lparr>uiError := Some (completion_message err)\<rparr>));
             h3 = (if completionSucceeded then h2\<lparr>sessionStatus := S_completed\<rparr> else h2);
             h4 = clearSessionState True h3
         in h4\<lparr>sessionStatus := S_idle\<rparr>))"

subsection \<open>Executions\<close>

datatype hook_event =
    HandleData string bool
  | FlushQueue bool
  | UploadSettled nat bool bool
  | DiscardPending
  | SessionCreated string string RecorderSource
  | ClearSessionState bool
  | Send RecorderEvent
  | CompleteSession bool socket_attempt outcome

fun step :: "hook \<Rightarrow> hook_event \<Rightarrow> hook" where
  "step h (HandleData data onLine) = handleData data onLine h"
| "step h (FlushQueue onLine) = flushQueue onLine h"
| "step h (UploadSettled i ok onLine) = upload_settled i ok onLine h"
| "step h DiscardPending = discardPending h"
| "step h (SessionCreated recording_id token src) = session_created recording_id token src h"
| "step h (ClearSessionState resetMachine) = clearSessionState resetMachine h"
| "step h (Send ev) = send ev h"
| "step h (CompleteSession canUseSocket viaSocket viaREST) =
     completeSession canUseSocket viaSocket viaREST h"

definition run :: "hook_event list \<Rightarrow> hook \<Rightarrow> hook" where
  "run evs h = foldl step h evs"

subsection \<open>stopRecording\<close>




text \<open>The operations of the delivery queue alone: enqueue, drain, and the settling of an upload.\<close>

fun queue_event :: "hook_event \<Rightarrow> bool" where
  "queue_event (HandleData data onLine) = True"
| "queue_event (FlushQueue onLine) = True"
| "queue_event (UploadSettled i ok onLine) = True"
| "queue_event _ = False"

fun failed_upload :: "hook_event \<Rightarrow> bool" where
  "failed_upload (UploadSettled i ok onLine) = (\<not> ok)"
| "failed_upload _ = False"

text \<open>The chunks an execution enqueued, in the order of their capture.\<close>

fun enqueued :: "hook_event list \<Rightarrow> QueuedChunk list" where
  "enqueued [] = []"
| "enqueued (HandleData data onLine # evs) =
     (if data = [] then enqueued evs
      else \<lparr>blob = data, durationMs = CHUNK_MS\<rparr> # enqueued evs)"
| "enqueued (_ # evs) = enqueued evs"

definition delivered_indices :: "hook \<Rightarrow> nat list" where
  "delivered_indices h = map fst (delivered h)"

definition delivered_chunks :: "hook \<Rightarrow> QueuedChunk list" where
  "delivered_chunks h = map snd (delivered h)"

section \<open>Notions the properties are stated with\<close>

text \<open>The payload a token carries: its first segment, decoded.\<close>

definition token_payload :: "platform \<Rightarrow> string \<Rightarrow> SocketTokenPayload option" where
  "token_payload P token = decode P (hd (split_on CHR ''.'' token))"

text \<open>What the relay persists.\<close>

definition database :: "relay \<Rightarrow> (string \<rightharpoonup> RecordingSession) \<times> AudioChunk list \<times> StatusEvent list" where
  "database srv = (recordingSession srv, audioChunk srv, statusEvent srv)"

text \<open>
  The four acceptance gates of a chunk as the specification words them, and
  the order in which it lists them.  The payload is present when session id,
  chunk and token are there and not empty.  The rate limit allows a chunk
  when the connection has no window, or its window started more than 10 s
  ago, or fewer than 40 chunks were counted in it.  The size ceiling is
  2 MiB on the decoded length.  The token is accepted when it is a payload
  segment and a signature segment joined by a dot, the signature is the
  keyed hash of the payload segment, the payload decodes, its \<open>exp\<close> has
  not passed, its session is the session of the chunk and its user is the
  user the connection is bound to.
\<close>

datatype gate = Payload_gate | Rate_gate | Size_gate | Token_gate

definition payload_present :: "ChunkPayload \<Rightarrow> bool" where
  "payload_present payload =
     (cp_sessionId payload \<noteq> [] \<and> cp_chunk payload \<noteq> [] \<and> \<not> missing (cp_token payload))"

definition rate_allowed :: "int \<Rightarrow> socket \<Rightarrow> relay \<Rightarrow> bool" where
  "rate_allowed now sock srv =
     (case rateState srv (socket_id sock) of
        None \<Rightarrow> True
      | Some (count, windowStart) \<Rightarrow> 10000 < now - windowStart \<or> count < 40)"

definition size_allowed :: "platform \<Rightarrow> ChunkPayload \<Rightarrow> bool" where
  "size_allowed P payload = (byteLength_base64 P (cp_chunk payload) \<le> 2 * 1024 * 1024)"

definition token_accepted :: "platform \<Rightarrow> int \<Rightarrow> socket \<Rightarrow> string \<Rightarrow> string \<Rightarrow> bool" where
  "token_accepted P now sock sid token =
     (case split_on CHR ''.'' token of
        body # signature # _ \<Rightarrow>
          signature = hmac_sha256 P body \<and>
          (case decode P body of
             None \<Rightarrow> False
           | Some p \<Rightarrow>
               now \<le> tok_exp p \<and> tok_sessionId p = sid \<and> Some (tok_userId p) = data_userId sock)
      | _ \<Rightarrow> False)"

definition first_failing_gate ::
  "platform \<Rightarrow> int \<Rightarrow> socket \<Rightarrow> ChunkPayload \<Rightarrow> relay \<Rightarrow> gate option" where
  "first_failing_gate P now sock payload srv =
     (if \<not> payload_present payload then Some Payload_gate
      else if \<not> rate_allowed now sock srv then Some Rate_gate
      else if \<not> size_allowed P payload then Some Size_gate
      else if \<not> (case cp_token payload of
                    None \<Rightarrow> False
                  | Some token \<Rightarrow> token_accepted P now sock (cp_sessionId payload) token)
      then Some Token_gate
      else None)"

text \<open>The failure each gate answers with.\<close>

fun gate_error :: "gate \<Rightarrow> relay_error \<Rightarrow> bool" where
  "gate_error Payload_gate e = (e = MissingSessionIdChunkOrToken)"
| "gate_error Rate_gate e = (e = RateLimitExceeded)"
| "gate_error Size_gate e = (e = ChunkTooLarge)"
| "gate_error Token_gate e = invalidTokenClass e"

text \<open>The verdicts of \<open>checkRateLimit\<close> on the chunks one socket sends at the given times.\<close>

fun rate_verdicts :: "string \<Rightarrow> int list \<Rightarrow> (string \<rightharpoonup> (int \<times> int)) \<Rightarrow> bool list" where
  "rate_verdicts socketId [] rs = []"
| "rate_verdicts socketId (now # later) rs =
     fst (checkRateLimit now rs socketId)
       # rate_verdicts socketId later (snd (checkRateLimit now rs socketId))"

text \<open>
  The fixed window as the specification words it, on the arrival times of the
  chunks of one connection that has no window yet: the first chunk opens a
  window; the chunks that follow within 10 s of it belong to the window, up
  to the first one that comes later, which opens the next window; of the
  chunks of a window the first 40 are let through.
\<close>

function window_verdicts :: "int list \<Rightarrow> bool list" where
  "window_verdicts [] = []"
| "window_verdicts (t0 # ts) =
     replicate (min 40 (Suc (length (takeWhile (\<lambda>t. t - t0 \<le> 10000) ts)))) True
     @ replicate (Suc (length (takeWhile (\<lambda>t. t - t0 \<le> 10000) ts)) - 40) False
     @ window_verdicts (dropWhile (\<lambda>t. t - t0 \<le> 10000) ts)"
  by pat_completeness auto
termination
  by (relation "measure length") (auto simp: length_dropWhile_le less_Suc_eq_le)

section \<open>Concrete instances\<close>

text \<open>
  A small platform on which the definitions can be run: the keyed hash
  reverses its input, base64url is the identity, and the payload is written
  as \<open>session/user/age\<close>.
\<close>

definition example_platform :: platform where
  "example_platform =
     \<lparr>hmac_sha256 = rev,
      to_base64url = (\<lambda>s. s),
      from_base64url = (\<lambda>s. s),
      JSON_stringify = (\<lambda>p. tok_sessionId p @ ''/'' @ tok_userId p @ ''/'' @
                              (if tok_exp p < 100 then ''old'' else ''new'')),
      JSON_parse = (\<lambda>s. if s = ''s1/u1/new''
                          then Some \<lparr>tok_sessionId = ''s1'', tok_userId = ''u1'', tok_exp = 3600000\<rparr>
                          else if s = ''s1/u1/old''
                          then Some \<lparr>tok_sessionId = ''s1'', tok_userId = ''u1'', tok_exp = 5\<rparr>
                          else None),
      byteLength_base64 = (\<lambda>s. (length s * 3) div 4),
      from_base64 = (\<lambda>s. s)\<rparr>"

definition fresh_token :: string where
  "fresh_token = ''s1/u1/new.wen/1u/1s''"

definition expired_token :: string where
  "expired_token = ''s1/u1/old.dlo/1u/1s''"

definition example_recording :: RecordingSession where
  "example_recording =
     \<lparr>rec_userId = ''u1'', rec_transcript = Some ''Speaker A: hello'', rec_status = St_recording,
      rec_summary = None, rec_summaryVersion = 0, rec_completedAt = None\<rparr>"

definition example_relay :: relay where
  "example_relay =
     \<lparr>rateState = Map.empty, recordingSession = [''s1'' \<mapsto> example_recording],
      audioChunk = [], statusEvent = [], emitted = []\<rparr>"

definition example_socket :: socket where
  "example_socket = \<lparr>socket_id = ''k1'', data_userId = Some ''u1'', rooms = []\<rparr>"

definition example_chunk :: ChunkPayload where
  "example_chunk =
     \<lparr>cp_sessionId = ''s1'', cp_chunk = ''QUJD'', cp_index = 1, cp_durationMs = 30000,
      cp_source = Mic, cp_mimeType = None, cp_token = Some fresh_token\<rparr>"

definition two_line_recording :: RecordingSession where
  "two_line_recording =
     example_recording\<lparr>rec_transcript := Some (''Speaker A: hello'' @ [CHR 0x0A] @ ''Speaker B: hi'')\<rparr>"

definition two_line_relay :: relay where
  "two_line_relay = example_relay\<lparr>recordingSession := [''s1'' \<mapsto> two_line_recording]\<rparr>"

text \<open>A session in which two chunks were captured while the browser was offline.\<close>

definition offline_backlog :: hook where
  "offline_backlog =
     run [SessionCreated ''s1'' fresh_token Mic, HandleData ''a'' False, HandleData ''b'' False]
       initial_hook"

text \<open>
  An execution in which the upload of the second chunk fails once and is
  retried: the first chunk is delivered, the second is captured, its upload
  fails, the queue is drained again and the upload succeeds.
\<close>

definition failed_then_retried :: "hook_event list" where
  "failed_then_retried =
     [HandleData ''a'' True, UploadSettled 0 True True,
      HandleData ''b'' True, UploadSettled 0 False True,
      FlushQueue True, UploadSettled 0 True True]"

section \<open>Invariants of the delivery queue\<close>

text \<open>
  \<open>single_flight\<close>: there is at most one outstanding upload attempt, and
  none unless a flush is in progress.  \<open>queue_inv E\<close>: moreover a session is
  active, the chunks delivered, in flight and queued are, in this order, the
  chunks \<open>E\<close> captured so far, and the indices handed out are strictly
  increasing and bounded by the counter.  \<open>gapless\<close>: the indices handed out
  are exactly \<open>1, ..., chunkCounter\<close>.
\<close>

definition single_flight :: "hook \<Rightarrow> bool" where
  "single_flight h = ((inflight h \<noteq> [] \<longrightarrow> flushPromise h) \<and> length (inflight h) \<le> 1)"

definition queue_inv :: "QueuedChunk list \<Rightarrow> hook \<Rightarrow> bool" where
  "queue_inv E h =
     (single_flight h \<and> sessionId h \<noteq> None \<and>
      delivered_chunks h @ map fst (inflight h) @ chunkQueue h = E \<and>
      sorted_wrt (<) (delivered_indices h @ map snd (inflight h)) \<and>
      (\<forall>i\<in>set (delivered_indices h @ map snd (inflight h)). i \<le> chunkCounter h))"

definition gapless :: "hook \<Rightarrow> bool" where
  "gapless h = (delivered_indices h @ map snd (inflight h) = [1..<Suc (chunkCounter h)])"

section \<open>Properties of the recorder state machine\<close>


text \<open>
  Claim C3, as stated, asks that \<open>ERROR\<close> moves the machine to the error
  state from every state.  The idle state lists no \<open>ERROR\<close> transition, so
  the event is dropped there.
\<close>

theorem recorderMachine_error_in_idle_dropped:
  "fst (recorderMachine (Idle, initialContext) (ERROR ''boom'')) \<noteq> Error"
  by simp

text \<open>
  Claim C3, amended.  From \<open>recording\<close> and from \<open>paused\<close> the event
  \<open>ERROR message\<close> moves the machine to \<open>error\<close> and stores the message;
  in \<open>idle\<close> and in \<open>error\<close> the event is dropped and the machine is
  unchanged; from \<open>error\<close> the event \<open>RESET\<close> moves the machine to \<open>idle\<close>
  with the initial context, that is with no stored error and both counters at
  zero.
\<close>

theorem recorderMachine_error_reset:
  "recorderMachine (Recording, c) (ERROR m) = (Error, c\<lparr>error := Some m\<rparr>) \<and>
   recorderMachine (Paused, c) (ERROR m) = (Error, c\<lparr>error := Some m\<rparr>) \<and>
   recorderMachine (Idle, c) (ERROR m) = (Idle, c) \<and>
   recorderMachine (Error, c) (ERROR m) = (Error, c) \<and>
   recorderMachine (Error, c) RESET = (Idle, initialContext) \<and>
   error initialContext = None \<and>
   queuedChunks initialContext = 0 \<and>
   uploadedChunks initialContext = 0"
  by (simp add: resetContext_def initialContext_def)

theorem recorderMachine_error_reset_witness:
  "recorderMachine (Recording, initialContext\<lparr>queuedChunks := 2\<rparr>) (ERROR ''Failed to upload chunk.'')
     = (Error, initialContext\<lparr>queuedChunks := 2, error := Some ''Failed to upload chunk.''\<rparr>) \<and>
   recorderMachine (Error, initialContext\<lparr>queuedChunks := 2, error := Some ''Failed to upload chunk.''\<rparr>) RESET
     = (Idle, initialContext)"
  using recorderMachine_error_reset
    [of "initialContext\<lparr>queuedChunks := 2\<rparr>" "''Failed to upload chunk.''"]
    recorderMachine_error_reset
    [of "initialContext\<lparr>queuedChunks := 2, error := Some ''Failed to upload chunk.''\<rparr>" "''x''"]
  by simp

section \<open>Properties of the socket tokens\<close>

lemma split_on_notin: "sep \<notin> set s \<Longrightarrow> split_on sep s = [s]"
  by (induction s) auto

lemma split_on_nonempty: "split_on sep s \<noteq> []"
  by (induction s) (auto split: list.splits)

lemma split_on_two: "sep \<in> set s \<Longrightarrow> \<exists>a b r. split_on sep s = a # b # r"
proof (induction s)
  case Nil
  then show ?case by simp
next
  case (Cons x xs)
  show ?case
  proof (cases "x = sep")
    case True
    then show ?thesis using split_on_nonempty[of sep xs] by (cases "split_on sep xs") auto
  next
    case False
    with Cons obtain a b r where "split_on sep xs = a # b # r" by auto
    with False show ?thesis by simp
  qed
qed


lemma verifySocketToken_Inr:
  "verifySocketToken P now token = Inr payload \<Longrightarrow>
     token_payload P token = Some payload \<and> \<not> tok_exp payload < now"
  unfolding verifySocketToken_def token_payload_def
  by (auto split: if_splits list.splits option.splits simp: Let_def)

lemma verifySocketToken_Inl:
  "verifySocketToken P now token = Inl e \<Longrightarrow> invalidTokenClass e"
  unfolding verifySocketToken_def invalidTokenClass_def
  by (auto split: if_splits list.splits option.splits simp: Let_def)

lemma join_token_check_Inl:
  "join_token_check P now sid token = Inl e \<Longrightarrow> invalidTokenClass e"
  unfolding join_token_check_def
  by (auto split: sum.splits if_splits dest: verifySocketToken_Inl simp: invalidTokenClass_def)

lemma join_token_check_Inr:
  "join_token_check P now sid token = Inr payload \<Longrightarrow>
     token_payload P token = Some payload \<and> \<not> tok_exp payload < now \<and> tok_sessionId payload = sid"
  unfolding join_token_check_def
  by (auto split: sum.splits if_splits dest: verifySocketToken_Inr)



text \<open>
  Claim C5.  A token whose payload has an \<open>exp\<close> before the current time, or
  a \<open>sessionId\<close> other than the session being joined, is rejected by
  \<open>join-session\<close>: the only event emitted is a \<open>session-error\<close>, which
  carries one of the token errors (or, when the session id or the token is
  the empty string, the missing-argument error), and the socket is returned
  as it was, so it has joined no room and is bound to no user.
\<close>

theorem join_session_rejects_bad_token:
  assumes "token_payload P token = Some payload"
    and "tok_exp payload < now \<or> tok_sessionId payload \<noteq> sid"
  shows "\<exists>about e. join_session P now sock sid (Some token) srv
             = (emit (ToSocket (socket_id sock)) (Session_error about e) srv, sock)
           \<and> (if sid = [] \<or> token = [] then e = MissingSessionIdOrToken else invalidTokenClass e)"
proof (cases "sid = [] \<or> token = []")
  case True
  then show ?thesis by (auto simp: join_session_def Let_def)
next
  case False
  show ?thesis
  proof (cases "join_token_check P now sid token")
    case (Inl e)
    then have "invalidTokenClass e" by (rule join_token_check_Inl)
    with Inl False show ?thesis by (auto simp: join_session_def Let_def)
  next
    case (Inr p)
    from join_token_check_Inr[OF Inr] assms have False by auto
    then show ?thesis ..
  qed
qed

theorem join_session_rejects_bad_token_witness:
  "token_payload example_platform expired_token
     = Some \<lparr>tok_sessionId = ''s1'', tok_userId = ''u1'', tok_exp = 5\<rparr> \<and>
   (\<exists>about e. join_session example_platform 1000 (example_socket\<lparr>data_userId := None\<rparr>) ''s1''
                 (Some expired_token) example_relay
             = (emit (ToSocket ''k1'') (Session_error about e) example_relay,
                example_socket\<lparr>data_userId := None\<rparr>)
           \<and> invalidTokenClass e)"
proof -
  have p: "token_payload example_platform expired_token
             = Some \<lparr>tok_sessionId = ''s1'', tok_userId = ''u1'', tok_exp = 5\<rparr>"
    by (simp add: token_payload_def expired_token_def decode_def example_platform_def)
  have "tok_exp \<lparr>tok_sessionId = ''s1'', tok_userId = ''u1'', tok_exp = 5\<rparr> < 1000
          \<or> tok_sessionId \<lparr>tok_sessionId = ''s1'', tok_userId = ''u1'', tok_exp = 5\<rparr> \<noteq> ''s1''"
    by simp
  from join_session_rejects_bad_token[OF p this,
      of "example_socket\<lparr>data_userId := None\<rparr>" example_relay]
  have "\<exists>about e. join_session example_platform 1000 (example_socket\<lparr>data_userId := None\<rparr>) ''s1''
                 (Some expired_token) example_relay
             = (emit (ToSocket (socket_id (example_socket\<lparr>data_userId := None\<rparr>)))
                  (Session_error about e) example_relay,
                example_socket\<lparr>data_userId := None\<rparr>)
           \<and> invalidTokenClass e"
    by (simp add: expired_token_def)
  then have "\<exists>about e. join_session example_platform 1000 (example_socket\<lparr>data_userId := None\<rparr>) ''s1''
                 (Some expired_token) example_relay
             = (emit (ToSocket ''k1'') (Session_error about e) example_relay,
                example_socket\<lparr>data_userId := None\<rparr>)
           \<and> invalidTokenClass e"
    by (simp add: example_socket_def expired_token_def)
  with p show ?thesis by (intro conjI)
qed

section \<open>Properties of the relay's chunk handler\<close>

lemma chunk_token_check_Inl:
  "chunk_token_check P now sock sid token = Inl e \<Longrightarrow> invalidTokenClass e"
  unfolding chunk_token_check_def
  by (auto split: sum.splits if_splits dest: verifySocketToken_Inl simp: invalidTokenClass_def)

lemma chunk_token_check_accepts:
  "(\<exists>p. chunk_token_check P now sock sid token = Inr p) \<longleftrightarrow> token_accepted P now sock sid token"
proof (cases "CHR ''.'' \<in> set token")
  case False
  then show ?thesis
    by (simp add: chunk_token_check_def verifySocketToken_def token_accepted_def split_on_notin)
next
  case True
  from split_on_two[OF this] obtain a b r where sp: "split_on CHR ''.'' token = a # b # r"
    by blast
  show ?thesis
    using True
    by (auto simp: chunk_token_check_def verifySocketToken_def token_accepted_def sp Let_def
        split: option.splits)
qed

lemma checkRateLimit_allowed:
  "fst (checkRateLimit now (rateState srv) (socket_id sock)) = rate_allowed now sock srv"
  by (auto simp: checkRateLimit_def rate_allowed_def RATE_WINDOW_MS_def MAX_CHUNKS_PER_WINDOW_def
      split: option.splits)

lemma audio_chunk_gate_result:
  assumes "first_failing_gate P now sock payload srv = Some g"
  shows "\<exists>e rs. audio_chunk P transcribeChunk now sock payload srv = (srv\<lparr>rateState := rs\<rparr>, AckFail e)
           \<and> gate_error g e"
proof (cases "payload_present payload")
  case False
  with assms have "audio_chunk P transcribeChunk now sock payload srv
                     = (srv\<lparr>rateState := rateState srv\<rparr>, AckFail MissingSessionIdChunkOrToken)"
    and "g = Payload_gate"
    by (auto simp: first_failing_gate_def audio_chunk_def payload_present_def missing_def
        split: option.splits)
  then show ?thesis by (intro exI[of _ MissingSessionIdChunkOrToken] exI[of _ "rateState srv"]) simp
next
  case pp: True
  then obtain token where tk: "cp_token payload = Some token" "token \<noteq> []"
    and ne: "cp_sessionId payload \<noteq> []" "cp_chunk payload \<noteq> []"
    by (auto simp: payload_present_def missing_def)
  obtain ok rs where c: "checkRateLimit now (rateState srv) (socket_id sock) = (ok, rs)"
    by (cases "checkRateLimit now (rateState srv) (socket_id sock)")
  then have ok: "ok = rate_allowed now sock srv"
    using checkRateLimit_allowed[of now srv sock] by simp
  show ?thesis
  proof (cases "rate_allowed now sock srv")
    case False
    with pp assms have "g = Rate_gate" by (simp add: first_failing_gate_def)
    moreover from False ok c tk ne
    have "audio_chunk P transcribeChunk now sock payload srv = (srv\<lparr>rateState := rs\<rparr>, AckFail RateLimitExceeded)"
      by (simp add: audio_chunk_def)
    ultimately show ?thesis by auto
  next
    case ra: True
    show ?thesis
    proof (cases "size_allowed P payload")
      case False
      with ra pp assms have "g = Size_gate" by (simp add: first_failing_gate_def)
      moreover from False ra ok c tk ne
      have "audio_chunk P transcribeChunk now sock payload srv = (srv\<lparr>rateState := rs\<rparr>, AckFail ChunkTooLarge)"
        by (simp add: audio_chunk_def size_allowed_def)
      ultimately show ?thesis by auto
    next
      case sa: True
      with ra pp assms tk have g: "g = Token_gate"
        and na: "\<not> token_accepted P now sock (cp_sessionId payload) token"
        by (auto simp: first_failing_gate_def split: if_splits)
      from na obtain e where e: "chunk_token_check P now sock (cp_sessionId payload) token = Inl e"
        using chunk_token_check_accepts[of P now sock "cp_sessionId payload" token]
        by (cases "chunk_token_check P now sock (cp_sessionId payload) token") auto
      then have "invalidTokenClass e" by (rule chunk_token_check_Inl)
      moreover from e sa ra ok c tk ne
      have "audio_chunk P transcribeChunk now sock payload srv = (srv\<lparr>rateState := rs\<rparr>, AckFail e)"
        by (simp add: audio_chunk_def size_allowed_def)
      ultimately show ?thesis using g by auto
    qed
  qed
qed

lemma audio_chunk_gate_fails:
  assumes "first_failing_gate P now sock payload srv = Some g"
  shows "(\<exists>e. snd (audio_chunk P transcribeChunk now sock payload srv) = AckFail e \<and> gate_error g e) \<and>
         database (fst (audio_chunk P transcribeChunk now sock payload srv)) = database srv \<and>
         emitted (fst (audio_chunk P transcribeChunk now sock payload srv)) = emitted srv"
proof -
  from audio_chunk_gate_result[OF assms] obtain e rs where
    "audio_chunk P transcribeChunk now sock payload srv = (srv\<lparr>rateState := rs\<rparr>, AckFail e)"
    and "gate_error g e"
    by blast
  then show ?thesis by (auto simp: database_def)
qed

lemma audio_chunk_gates_pass:
  assumes "first_failing_gate P now sock payload srv = None"
  shows "audio_chunk P transcribeChunk now sock payload srv
           = store_chunk P transcribeChunk sock payload
               (srv\<lparr>rateState := snd (checkRateLimit now (rateState srv) (socket_id sock))\<rparr>)"
proof -
  from assms obtain token where tk: "cp_token payload = Some token" "token \<noteq> []"
    and ne: "cp_sessionId payload \<noteq> []" "cp_chunk payload \<noteq> []"
    and ra: "rate_allowed now sock srv" and sa: "size_allowed P payload"
    and ta: "token_accepted P now sock (cp_sessionId payload) token"
    by (auto simp: first_failing_gate_def payload_present_def missing_def
        split: if_splits option.splits)
  from ra have r: "fst (checkRateLimit now (rateState srv) (socket_id sock))"
    by (simp add: checkRateLimit_allowed)
  from ta obtain p where "chunk_token_check P now sock (cp_sessionId payload) token = Inr p"
    using chunk_token_check_accepts[of P now sock "cp_sessionId payload" token] by blast
  with tk ne r sa show ?thesis
    by (auto simp: audio_chunk_def size_allowed_def Let_def split: prod.splits)
qed

lemma checkRateLimit_new_window:
  assumes "rs k = None \<or> (\<exists>c ws. rs k = Some (c, ws) \<and> 10000 < t - ws)"
  shows "checkRateLimit t rs k = (True, rs(k \<mapsto> (1, t)))"
  using assms by (auto simp: checkRateLimit_def RATE_WINDOW_MS_def)

lemma rate_verdicts_append_in_window:
  assumes "rs k = Some (c, ws)" "0 \<le> c" "c \<le> 40" "\<forall>t\<in>set ins. t - ws \<le> 10000"
  shows "\<exists>rs' c'. rs' k = Some (c', ws) \<and>
           rate_verdicts k (ins @ rest) rs
             = replicate (min (nat (40 - c)) (length ins)) True
               @ replicate (length ins - nat (40 - c)) False
               @ rate_verdicts k rest rs'"
  using assms
proof (induction ins arbitrary: rs c)
  case Nil
  then show ?case by auto
next
  case (Cons t ins)
  show ?case
  proof (cases "c = 40")
    case True
    with Cons.prems have step: "checkRateLimit t rs k = (False, rs)"
      by (simp add: checkRateLimit_def RATE_WINDOW_MS_def MAX_CHUNKS_PER_WINDOW_def)
    from Cons.IH[of rs c] Cons.prems obtain rs' c' where
      "rs' k = Some (c', ws)"
      "rate_verdicts k (ins @ rest) rs
         = replicate (min (nat (40 - c)) (length ins)) True
           @ replicate (length ins - nat (40 - c)) False @ rate_verdicts k rest rs'"
      by auto
    with True step show ?thesis by auto
  next
    case False
    with Cons.prems have step: "checkRateLimit t rs k = (True, rs(k \<mapsto> (c + 1, ws)))"
      by (simp add: checkRateLimit_def RATE_WINDOW_MS_def MAX_CHUNKS_PER_WINDOW_def)
    have "\<exists>rs' c'. rs' k = Some (c', ws) \<and>
           rate_verdicts k (ins @ rest) (rs(k \<mapsto> (c + 1, ws)))
             = replicate (min (nat (40 - (c + 1))) (length ins)) True
               @ replicate (length ins - nat (40 - (c + 1))) False
               @ rate_verdicts k rest rs'"
    proof (rule Cons.IH)
      show "(rs(k \<mapsto> (c + 1, ws))) k = Some (c + 1, ws)" by simp
      show "0 \<le> c + 1" using Cons.prems by simp
      show "c + 1 \<le> 40" using Cons.prems False by simp
      show "\<forall>t\<in>set ins. t - ws \<le> 10000" using Cons.prems by simp
    qed
    then obtain rs' c' where r: "rs' k = Some (c', ws)"
      and v: "rate_verdicts k (ins @ rest) (rs(k \<mapsto> (c + 1, ws)))
             = replicate (min (nat (40 - (c + 1))) (length ins)) True
               @ replicate (length ins - nat (40 - (c + 1))) False
               @ rate_verdicts k rest rs'"
      by blast
    have n: "nat (40 - c) = Suc (nat (40 - (c + 1)))"
      using Cons.prems False by simp
    have "rate_verdicts k ((t # ins) @ rest) rs
            = replicate (min (nat (40 - c)) (length (t # ins))) True
               @ replicate (length (t # ins) - nat (40 - c)) False
               @ rate_verdicts k rest rs'"
      using step v unfolding n by simp
    with r show ?thesis by blast
  qed
qed

lemma rate_verdicts_windows:
  assumes "ts = [] \<or> rs k = None \<or> (\<exists>c ws. rs k = Some (c, ws) \<and> 10000 < hd ts - ws)"
  shows "rate_verdicts k ts rs = window_verdicts ts"
  using assms
proof (induction "length ts" arbitrary: ts rs rule: less_induct)
  case less
  show ?case
  proof (cases ts)
    case Nil
    then show ?thesis by simp
  next
    case (Cons t0 tl)
    let ?in = "\<lambda>t. t - t0 \<le> 10000"
    let ?ins = "takeWhile ?in tl"
    let ?rest = "dropWhile ?in tl"
    from less.prems Cons have "rs k = None \<or> (\<exists>c ws. rs k = Some (c, ws) \<and> 10000 < t0 - ws)"
      by simp
    then have step: "checkRateLimit t0 rs k = (True, rs(k \<mapsto> (1, t0)))"
      by (rule checkRateLimit_new_window)
    have "\<exists>rs' c'. rs' k = Some (c', t0) \<and>
           rate_verdicts k (?ins @ ?rest) (rs(k \<mapsto> (1, t0)))
             = replicate (min (nat (40 - 1)) (length ?ins)) True
               @ replicate (length ?ins - nat (40 - 1)) False
               @ rate_verdicts k ?rest rs'"
    proof (rule rate_verdicts_append_in_window)
      show "(rs(k \<mapsto> (1, t0))) k = Some (1, t0)" by simp
      show "\<forall>t\<in>set ?ins. t - t0 \<le> 10000" by (auto dest: set_takeWhileD)
    qed simp_all
    then obtain rs' c' where r: "rs' k = Some (c', t0)"
      and v: "rate_verdicts k tl (rs(k \<mapsto> (1, t0)))
             = replicate (min 39 (length ?ins)) True
               @ replicate (length ?ins - 39) False
               @ rate_verdicts k ?rest rs'"
      by auto
    have closed: "?rest = [] \<or> rs' k = None \<or> (\<exists>c ws. rs' k = Some (c, ws) \<and> 10000 < hd ?rest - ws)"
    proof (cases "?rest = []")
      case False
      then have "\<not> ?in (hd ?rest)" by (rule hd_dropWhile)
      with r show ?thesis by auto
    qed simp
    have "length ?rest < length ts"
      using Cons by (simp add: length_dropWhile_le less_Suc_eq_le)
    from less.hyps[of ?rest rs', OF this closed]
    have rest: "rate_verdicts k ?rest rs' = window_verdicts ?rest" .
    have n: "(40::nat) = Suc 39" by simp
    have "True # replicate (min 39 (length ?ins)) True = replicate (min 40 (Suc (length ?ins))) True"
      unfolding n by simp
    moreover have "length ?ins - 39 = Suc (length ?ins) - 40" by simp
    ultimately show ?thesis
      using Cons step v rest by simp
  qed
qed

text \<open>
  Claim C4.  The handler applies the four gates in the order of the
  specification: payload present, rate limit of the connection, size ceiling
  of 2 MiB on the decoded payload, token (signature, expiry, session and
  user binding).  When a gate fails the handler answers with the failure of
  the first gate that fails, changes nothing in the database and emits no
  event.  A chunk that passes the four gates, and no other, is handed to the
  storing stage.  The rate limit is a fixed window of 40 chunks per 10 s: on
  a connection with no window, or whose window has run out when the first
  chunk arrives, the verdicts are those of the specification's windows for
  every sequence of arrival times.
\<close>

theorem audio_chunk_gate_order:
  "(first_failing_gate P now sock payload srv = Some g \<longrightarrow>
      (\<exists>e. snd (audio_chunk P transcribeChunk now sock payload srv) = AckFail e \<and> gate_error g e) \<and>
      database (fst (audio_chunk P transcribeChunk now sock payload srv)) = database srv \<and>
      emitted (fst (audio_chunk P transcribeChunk now sock payload srv)) = emitted srv) \<and>
   (first_failing_gate P now sock payload srv = None \<longrightarrow>
      audio_chunk P transcribeChunk now sock payload srv
        = store_chunk P transcribeChunk sock payload
            (srv\<lparr>rateState := snd (checkRateLimit now (rateState srv) (socket_id sock))\<rparr>)) \<and>
   ((\<forall>c ws. rateState srv (socket_id sock) = Some (c, ws) \<longrightarrow> 10000 < t0 - ws) \<longrightarrow>
      rate_verdicts (socket_id sock) (t0 # ts) (rateState srv) = window_verdicts (t0 # ts))"
proof (intro conjI impI)
  assume "first_failing_gate P now sock payload srv = Some g"
  from audio_chunk_gate_fails[OF this]
  show "\<exists>e. snd (audio_chunk P transcribeChunk now sock payload srv) = AckFail e \<and> gate_error g e"
    and "database (fst (audio_chunk P transcribeChunk now sock payload srv)) = database srv"
    and "emitted (fst (audio_chunk P transcribeChunk now sock payload srv)) = emitted srv"
    by blast+
next
  assume "first_failing_gate P now sock payload srv = None"
  then show "audio_chunk P transcribeChunk now sock payload srv
        = store_chunk P transcribeChunk sock payload
            (srv\<lparr>rateState := snd (checkRateLimit now (rateState srv) (socket_id sock))\<rparr>)"
    by (rule audio_chunk_gates_pass)
next
  assume w: "\<forall>c ws. rateState srv (socket_id sock) = Some (c, ws) \<longrightarrow> 10000 < t0 - ws"
  have "t0 # ts = [] \<or> rateState srv (socket_id sock) = None \<or>
          (\<exists>c ws. rateState srv (socket_id sock) = Some (c, ws) \<and> 10000 < hd (t0 # ts) - ws)"
  proof (cases "rateState srv (socket_id sock)")
    case (Some cw)
    with w show ?thesis by (cases cw) auto
  qed simp
  then show "rate_verdicts (socket_id sock) (t0 # ts) (rateState srv) = window_verdicts (t0 # ts)"
    by (rule rate_verdicts_windows)
qed

theorem audio_chunk_gate_order_witness:
  "snd (audio_chunk example_platform (\<lambda>c. Transcription None) 1000 example_socket
          (example_chunk\<lparr>cp_chunk := []\<rparr>) example_relay)
     = AckFail MissingSessionIdChunkOrToken \<and>
   snd (audio_chunk example_platform (\<lambda>c. Transcription None) 1000 example_socket example_chunk
          (example_relay\<lparr>rateState := [''k1'' \<mapsto> (40, 0)]\<rparr>)) = AckFail RateLimitExceeded \<and>
   snd (audio_chunk (example_platform\<lparr>byteLength_base64 := (\<lambda>s. 2097153)\<rparr>)
          (\<lambda>c. Transcription None) 1000 example_socket example_chunk example_relay)
     = AckFail ChunkTooLarge \<and>
   snd (audio_chunk example_platform (\<lambda>c. Transcription None) 1000 example_socket
          (example_chunk\<lparr>cp_token := Some expired_token\<rparr>) example_relay) = AckFail TokenExpired \<and>
   snd (audio_chunk example_platform (\<lambda>c. Transcription None) 1000 example_socket
          (example_chunk\<lparr>cp_token := Some ''s1/u1/new.forged''\<rparr>) example_relay)
     = AckFail SignatureLengthMismatch \<and>
   snd (audio_chunk example_platform (\<lambda>c. Transcription None) 1000
          (example_socket\<lparr>data_userId := Some ''u2''\<rparr>) example_chunk example_relay)
     = AckFail InvalidTokenForChunkUpload \<and>
   database (fst (audio_chunk example_platform (\<lambda>c. Transcription None) 1000 example_socket
                    (example_chunk\<lparr>cp_token := Some expired_token\<rparr>) example_relay))
     = database example_relay \<and>
   snd (audio_chunk example_platform (\<lambda>c. Transcription None) 20000 example_socket example_chunk
          (example_relay\<lparr>rateState := [''k1'' \<mapsto> (40, 0)]\<rparr>)) = AckOk \<and>
   rate_verdicts ''k1'' (replicate 41 0 @ [10001]) (rateState example_relay)
     = replicate 40 True @ [False, True]"
proof -
  let ?tr = "\<lambda>c::string. Transcription None"
  note ex = example_chunk_def example_socket_def example_relay_def example_platform_def
    fresh_token_def expired_token_def missing_def decode_def utf8_length_def
  note gates = first_failing_gate_def payload_present_def rate_allowed_def size_allowed_def
    token_accepted_def
  note code = audio_chunk_def checkRateLimit_def chunk_token_check_def verifySocketToken_def
    RATE_WINDOW_MS_def MAX_CHUNKS_PER_WINDOW_def Let_def
  have g1: "first_failing_gate example_platform 1000 example_socket
              (example_chunk\<lparr>cp_chunk := []\<rparr>) example_relay = Some Payload_gate"
    by (simp add: gates ex)
  have g2: "first_failing_gate example_platform 1000 example_socket example_chunk
              (example_relay\<lparr>rateState := [''k1'' \<mapsto> (40, 0)]\<rparr>) = Some Rate_gate"
    by (simp add: gates ex)
  have g3: "first_failing_gate (example_platform\<lparr>byteLength_base64 := (\<lambda>s. 2097153)\<rparr>) 1000
              example_socket example_chunk example_relay = Some Size_gate"
    by (simp add: gates ex)
  have g4: "first_failing_gate example_platform 1000 example_socket
              (example_chunk\<lparr>cp_token := Some expired_token\<rparr>) example_relay = Some Token_gate"
    by (simp add: gates ex)
  have g5: "first_failing_gate example_platform 1000 example_socket
              (example_chunk\<lparr>cp_token := Some ''s1/u1/new.forged''\<rparr>) example_relay = Some Token_gate"
    by (simp add: gates ex)
  have g6: "first_failing_gate example_platform 1000 (example_socket\<lparr>data_userId := Some ''u2''\<rparr>)
              example_chunk example_relay = Some Token_gate"
    by (simp add: gates ex)
  have g7: "first_failing_gate example_platform 20000 example_socket example_chunk
              (example_relay\<lparr>rateState := [''k1'' \<mapsto> (40, 0)]\<rparr>) = None"
    by (simp add: gates ex)
  have a1: "snd (audio_chunk example_platform ?tr 1000 example_socket
                   (example_chunk\<lparr>cp_chunk := []\<rparr>) example_relay)
              = AckFail MissingSessionIdChunkOrToken"
    using audio_chunk_gate_order[of example_platform 1000 example_socket
        "example_chunk\<lparr>cp_chunk := []\<rparr>" example_relay Payload_gate ?tr] g1
    by auto
  have a2: "snd (audio_chunk example_platform ?tr 1000 example_socket example_chunk
                   (example_relay\<lparr>rateState := [''k1'' \<mapsto> (40, 0)]\<rparr>)) = AckFail RateLimitExceeded"
    using audio_chunk_gate_order[of example_platform 1000 example_socket example_chunk
        "example_relay\<lparr>rateState := [''k1'' \<mapsto> (40, 0)]\<rparr>" Rate_gate ?tr] g2
    by auto
  have a3: "snd (audio_chunk (example_platform\<lparr>byteLength_base64 := (\<lambda>s. 2097153)\<rparr>) ?tr 1000
                   example_socket example_chunk example_relay) = AckFail ChunkTooLarge"
    using audio_chunk_gate_order[of "example_platform\<lparr>byteLength_base64 := (\<lambda>s. 2097153)\<rparr>" 1000
        example_socket example_chunk example_relay Size_gate ?tr] g3
    by auto
  have a4: "snd (audio_chunk example_platform ?tr 1000 example_socket
                   (example_chunk\<lparr>cp_token := Some expired_token\<rparr>) example_relay) = AckFail TokenExpired"
    by (simp add: code ex)
  have a5: "snd (audio_chunk example_platform ?tr 1000 example_socket
                   (example_chunk\<lparr>cp_token := Some ''s1/u1/new.forged''\<rparr>) example_relay)
              = AckFail SignatureLengthMismatch"
    by (simp add: code ex)
  have a6: "snd (audio_chunk example_platform ?tr 1000 (example_socket\<lparr>data_userId := Some ''u2''\<rparr>)
                   example_chunk example_relay) = AckFail InvalidTokenForChunkUpload"
    by (simp add: code ex)
  have d4: "database (fst (audio_chunk example_platform ?tr 1000 example_socket
                    (example_chunk\<lparr>cp_token := Some expired_token\<rparr>) example_relay))
              = database example_relay"
    using audio_chunk_gate_order[of example_platform 1000 example_socket
        "example_chunk\<lparr>cp_token := Some expired_token\<rparr>" example_relay Token_gate ?tr] g4
    by auto
  have a7: "snd (audio_chunk example_platform ?tr 20000 example_socket example_chunk
                   (example_relay\<lparr>rateState := [''k1'' \<mapsto> (40, 0)]\<rparr>)) = AckOk"
  proof -
    have "audio_chunk example_platform ?tr 20000 example_socket example_chunk
            (example_relay\<lparr>rateState := [''k1'' \<mapsto> (40, 0)]\<rparr>)
          = store_chunk example_platform ?tr example_socket example_chunk
              ((example_relay\<lparr>rateState := [''k1'' \<mapsto> (40, 0)]\<rparr>)
                 \<lparr>rateState := snd (checkRateLimit 20000
                     (rateState (example_relay\<lparr>rateState := [''k1'' \<mapsto> (40, 0)]\<rparr>))
                     (socket_id example_socket))\<rparr>)"
      using audio_chunk_gate_order[of example_platform 20000 example_socket example_chunk
          "example_relay\<lparr>rateState := [''k1'' \<mapsto> (40, 0)]\<rparr>" Rate_gate ?tr] g7
      by blast
    then show ?thesis
      by (simp add: store_chunk_def findRecording_def Let_def example_relay_def example_chunk_def
          example_socket_def example_recording_def)
  qed
  have w: "window_verdicts (replicate 41 0 @ [10001]) = replicate 40 True @ [False, True]"
    by code_simp
  have r: "replicate 41 (0::int) @ [10001] = 0 # (replicate 40 0 @ [10001])"
    by (simp add: numeral_eq_Suc)
  have v: "rate_verdicts ''k1'' (replicate 41 0 @ [10001]) (rateState example_relay)
             = replicate 40 True @ [False, True]"
    using audio_chunk_gate_order[of example_platform 1000 example_socket example_chunk example_relay
        Rate_gate ?tr 0 "replicate 40 0 @ [10001]"] w
    unfolding r by (simp add: example_relay_def example_socket_def)
  from a1 a2 a3 a4 a5 a6 d4 a7 v show ?thesis by (intro conjI)
qed

section \<open>Properties of the transcript filter\<close>

lemma str_includes_sublist: "str_includes s p \<longleftrightarrow> sublist p s"
  by (induction s) (auto simp: sublist_Cons_right)

lemma isWhiteSpace_lowerChar: "isWhiteSpace (lowerChar c) = isWhiteSpace c"
proof -
  have "(of_char c :: nat) < 256" by simp
  then show ?thesis
    unfolding isWhiteSpace_def lowerChar_def Let_def
    by (auto simp: mod_if)
qed

lemma toLowerCase_dropWhile:
  "toLowerCase (dropWhile isWhiteSpace s) = dropWhile isWhiteSpace (toLowerCase s)"
  by (simp add: toLowerCase_def dropWhile_map comp_def isWhiteSpace_lowerChar)

lemma toLowerCase_trim: "toLowerCase (trim s) = trim (toLowerCase s)"
proof -
  have r: "\<And>u. toLowerCase (rev u) = rev (toLowerCase u)"
    by (simp add: toLowerCase_def rev_map)
  show ?thesis
    unfolding trim_def by (simp add: r toLowerCase_dropWhile)
qed

lemma sublist_dropWhile:
  assumes "sublist p u" "p \<noteq> []" "\<not> Q (hd p)"
  shows "sublist p (dropWhile Q u)"
proof -
  from assms(1) obtain as bs where u: "u = as @ p @ bs" by (auto simp: sublist_def)
  have "\<exists>as'. dropWhile Q (as @ p @ bs) = as' @ p @ bs"
  proof (induction as)
    case Nil
    from assms(2,3) have "dropWhile Q (p @ bs) = p @ bs" by (cases p) auto
    then show ?case by (intro exI[of _ "[]"]) simp
  next
    case (Cons a as)
    then obtain as' where "dropWhile Q (as @ p @ bs) = as' @ p @ bs" by blast
    then show ?case
      by (cases "Q a") (auto intro: exI[of _ "a # as"])
  qed
  with u show ?thesis by (auto simp: sublist_def)
qed

lemma sublist_trim:
  assumes "sublist p u" "p \<noteq> []" "\<not> isWhiteSpace (hd p)" "\<not> isWhiteSpace (last p)"
  shows "sublist p (trim u)"
proof -
  have 1: "sublist p (dropWhile isWhiteSpace u)"
    using assms(1,2,3) by (rule sublist_dropWhile)
  then have "sublist (rev p) (rev (dropWhile isWhiteSpace u))" by simp
  moreover have "rev p \<noteq> []" using assms(2) by simp
  moreover have "\<not> isWhiteSpace (hd (rev p))" using assms(2,4) by (simp add: hd_rev)
  ultimately have "sublist (rev p) (dropWhile isWhiteSpace (rev (dropWhile isWhiteSpace u)))"
    by (rule sublist_dropWhile)
  then have "sublist (rev (rev p)) (rev (dropWhile isWhiteSpace (rev (dropWhile isWhiteSpace u))))"
    by (simp only: sublist_rev)
  then show ?thesis by (simp add: trim_def)
qed

lemma phrases_trimmed:
  "phrase \<in> set GENERIC_MEETING_PHRASES \<Longrightarrow>
     phrase \<noteq> [] \<and> \<not> isWhiteSpace (hd phrase) \<and> \<not> isWhiteSpace (last phrase)"
  by (auto simp: GENERIC_MEETING_PHRASES_def isWhiteSpace_def)

lemma suspicious_after_trim:
  assumes "\<exists>phrase\<in>set GENERIC_MEETING_PHRASES. str_includes (toLowerCase text) phrase"
  shows "trim text \<noteq> [] \<and> isSuspiciousTranscript (trim text)"
proof -
  from assms obtain phrase where ph: "phrase \<in> set GENERIC_MEETING_PHRASES"
    and inc: "sublist phrase (toLowerCase text)"
    by (auto simp: str_includes_sublist)
  from phrases_trimmed[OF ph] inc have "sublist phrase (trim (toLowerCase text))"
    by (intro sublist_trim) auto
  then have s: "sublist phrase (toLowerCase (trim text))" by (simp add: toLowerCase_trim)
  with ph have "isSuspiciousTranscript (trim text)"
    by (auto simp: isSuspiciousTranscript_def Let_def list_ex_iff str_includes_sublist)
  moreover have "trim text \<noteq> []"
  proof
    assume "trim text = []"
    with s have "phrase = []" by (simp add: toLowerCase_def)
    with phrases_trimmed[OF ph] show False by simp
  qed
  ultimately show ?thesis by simp
qed


lemma audio_chunk_AckOk:
  assumes "audio_chunk P transcribeChunk now sock payload srv = (srv', AckOk)"
  shows "\<exists>rs. store_chunk P transcribeChunk sock payload (srv\<lparr>rateState := rs\<rparr>) = (srv', AckOk)"
  using assms unfolding audio_chunk_def
  by (auto split: option.splits if_splits sum.splits prod.splits simp: Let_def)

lemma store_chunk_suspicious:
  assumes tr: "transcribeChunk (cp_chunk payload) = Transcription (Some text)"
    and sus: "\<exists>phrase\<in>set GENERIC_MEETING_PHRASES. str_includes (toLowerCase text) phrase"
    and ok: "store_chunk P transcribeChunk sock payload s = (s', AckOk)"
  shows "audioChunk s' = audioChunk s @
           [\<lparr>ac_sessionId = cp_sessionId payload, ac_order = cp_index payload,
             ac_durationMs = cp_durationMs payload,
             ac_mimeType = (case cp_mimeType payload of
                              None \<Rightarrow> ''audio/webm;codecs=opus'' | Some m \<Rightarrow> m),
             ac_bytes = from_base64 P (cp_chunk payload), ac_transcript = None\<rparr>]"
    and "map_option rec_transcript (recordingSession s' k) = map_option rec_transcript (recordingSession s k)"
    and "emitted s' = emitted s @
           [(ToRoom (sessionRoom (cp_sessionId payload)),
             Chunk_transcribed (cp_sessionId payload) (cp_index payload) [])]"
proof -
  from suspicious_after_trim[OF sus]
  have t: "trim text \<noteq> []" "isSuspiciousTranscript (trim text)" by simp_all
  from ok obtain recording where
    f: "findRecording s (cp_sessionId payload) (data_userId sock) = Some recording"
    unfolding store_chunk_def by (auto split: option.splits simp: Let_def)
  then have r: "recordingSession s (cp_sessionId payload) = Some recording"
    by (auto simp: findRecording_def split: option.splits if_splits)
  from ok f tr t
  have s': "s' = emit (ToRoom (sessionRoom (cp_sessionId payload)))
                   (Chunk_transcribed (cp_sessionId payload) (cp_index payload) [])
              ((if rec_status recording \<noteq> St_recording
                then (s\<lparr>audioChunk := audioChunk s @
                        [\<lparr>ac_sessionId = cp_sessionId payload, ac_order = cp_index payload,
                          ac_durationMs = cp_durationMs payload,
                          ac_mimeType = (case cp_mimeType payload of
                                           None \<Rightarrow> ''audio/webm;codecs=opus'' | Some m \<Rightarrow> m),
                          ac_bytes = from_base64 P (cp_chunk payload), ac_transcript = None\<rparr>]\<rparr>)
                     \<lparr>statusEvent := statusEvent s @
                              [\<lparr>se_sessionId = cp_sessionId payload, se_status = St_recording,
                                se_detail = ''Socket stream started''\<rparr>],
                       recordingSession := (recordingSession s)(cp_sessionId payload \<mapsto>
                              recording\<lparr>rec_status := St_recording\<rparr>)\<rparr>
                else s\<lparr>audioChunk := audioChunk s @
                        [\<lparr>ac_sessionId = cp_sessionId payload, ac_order = cp_index payload,
                          ac_durationMs = cp_durationMs payload,
                          ac_mimeType = (case cp_mimeType payload of
                                           None \<Rightarrow> ''audio/webm;codecs=opus'' | Some m \<Rightarrow> m),
                          ac_bytes = from_base64 P (cp_chunk payload), ac_transcript = None\<rparr>]\<rparr>))"
    unfolding store_chunk_def by (simp add: Let_def cong: if_cong)
  show "audioChunk s' = audioChunk s @
           [\<lparr>ac_sessionId = cp_sessionId payload, ac_order = cp_index payload,
             ac_durationMs = cp_durationMs payload,
             ac_mimeType = (case cp_mimeType payload of
                              None \<Rightarrow> ''audio/webm;codecs=opus'' | Some m \<Rightarrow> m),
             ac_bytes = from_base64 P (cp_chunk payload), ac_transcript = None\<rparr>]"
    unfolding s' by (simp add: emit_def)
  show "map_option rec_transcript (recordingSession s' k) = map_option rec_transcript (recordingSession s k)"
    unfolding s' using r by (simp add: emit_def)
  show "emitted s' = emitted s @
           [(ToRoom (sessionRoom (cp_sessionId payload)),
             Chunk_transcribed (cp_sessionId payload) (cp_index payload) [])]"
    unfolding s' by (simp add: emit_def)
qed

text \<open>
  Claim C9.  When the text the transcription returns, lowercased, contains
  one of the seven phrases of \<open>GENERIC_MEETING_PHRASES\<close>, an accepted chunk
  is stored with no transcript, the transcript of no recording changes, and
  the \<open>chunk-transcribed\<close> event sent to the session's room carries the
  empty text.
\<close>

theorem suspicious_transcript_discarded:
  assumes "transcribeChunk (cp_chunk payload) = Transcription (Some text)"
    and "\<exists>phrase\<in>set GENERIC_MEETING_PHRASES. str_includes (toLowerCase text) phrase"
    and "audio_chunk P transcribeChunk now sock payload srv = (srv', AckOk)"
  shows "audioChunk srv' = audioChunk srv @
           [\<lparr>ac_sessionId = cp_sessionId payload, ac_order = cp_index payload,
             ac_durationMs = cp_durationMs payload,
             ac_mimeType = (case cp_mimeType payload of
                              None \<Rightarrow> ''audio/webm;codecs=opus'' | Some m \<Rightarrow> m),
             ac_bytes = from_base64 P (cp_chunk payload), ac_transcript = None\<rparr>]
       \<and> (\<forall>k. map_option rec_transcript (recordingSession srv' k)
                = map_option rec_transcript (recordingSession srv k))
       \<and> emitted srv' = emitted srv @
           [(ToRoom (sessionRoom (cp_sessionId payload)),
             Chunk_transcribed (cp_sessionId payload) (cp_index payload) [])]"
proof -
  from audio_chunk_AckOk[OF assms(3)] obtain rs where
    st: "store_chunk P transcribeChunk sock payload (srv\<lparr>rateState := rs\<rparr>) = (srv', AckOk)"
    by blast
  from store_chunk_suspicious[OF assms(1,2) st] show ?thesis by simp
qed

theorem suspicious_transcript_discarded_witness:
  "snd (audio_chunk example_platform (\<lambda>c. Transcription (Some '' Our Sales Figures rose. '')) 1000
          example_socket example_chunk example_relay) = AckOk \<and>
   map ac_transcript
     (audioChunk (fst (audio_chunk example_platform
        (\<lambda>c. Transcription (Some '' Our Sales Figures rose. '')) 1000
        example_socket example_chunk example_relay))) = [None] \<and>
   emitted (fst (audio_chunk example_platform
        (\<lambda>c. Transcription (Some '' Our Sales Figures rose. '')) 1000
        example_socket example_chunk example_relay))
     = [(ToRoom ''session:s1'', Chunk_transcribed ''s1'' 1 [])]"
proof -
  let ?tr = "\<lambda>c::string. Transcription (Some '' Our Sales Figures rose. '')"
  let ?r = "audio_chunk example_platform ?tr 1000 example_socket example_chunk example_relay"
  have low: "toLowerCase '' Our Sales Figures rose. '' = '' our sales figures rose. ''"
    by code_simp
  have sus: "\<exists>phrase\<in>set GENERIC_MEETING_PHRASES.
               str_includes (toLowerCase '' Our Sales Figures rose. '') phrase"
    unfolding low by (simp add: GENERIC_MEETING_PHRASES_def)
  have gate: "first_failing_gate example_platform 1000 example_socket example_chunk example_relay = None"
    by (simp add: first_failing_gate_def payload_present_def rate_allowed_def size_allowed_def
        token_accepted_def decode_def example_chunk_def example_relay_def missing_def
        example_platform_def example_socket_def fresh_token_def)
  have found: "findRecording (example_relay\<lparr>rateState :=
                   snd (checkRateLimit 1000 (rateState example_relay) (socket_id example_socket))\<rparr>)
                 (cp_sessionId example_chunk) (data_userId example_socket) = Some example_recording"
    by (simp add: findRecording_def example_relay_def example_chunk_def example_socket_def
        example_recording_def)
  have ok: "snd ?r = AckOk"
    unfolding audio_chunk_gates_pass[OF gate]
    by (simp add: store_chunk_def Let_def found)
  then have eq: "?r = (fst ?r, AckOk)" by (metis prod.collapse)
  have tr: "?tr (cp_chunk example_chunk) = Transcription (Some '' Our Sales Figures rose. '')"
    by simp
  from suspicious_transcript_discarded[OF tr sus eq] ok
  show ?thesis
    by (simp add: example_relay_def example_chunk_def sessionRoom_def)
qed

section \<open>Properties of session completion\<close>

lemma fallback_summary_nonempty: "fallback_summary recording \<noteq> []"
  by (simp add: fallback_summary_def Let_def)

lemma complete_POST_summary_nonempty:
  assumes "complete_POST summarizeTranscript now caller sid srv
             = (srv', Completed_200 sid' status summary completedAt)"
  shows "\<exists>s. summary = Some s \<and> s \<noteq> [] \<and>
           map_option rec_summary (recordingSession srv' sid) = Some (Some s)"
  using assms fallback_summary_nonempty
  unfolding complete_POST_def
  by (auto split: option.splits if_splits simp: Let_def mark_completed_def mark_processing_def)

text \<open>
  Claim C7 at a failing input.  The recording has a transcript of two lines
  and no stored summary, and the summarisation service returns the empty
  summary.  The REST route persists the two lines as the summary; the
  socket handler acknowledges the completion and persists the empty summary
  with the status \<open>completed\<close>.
\<close>

theorem complete_session_persists_empty_summary:
  "snd (complete_session example_platform (\<lambda>transcript. Some []) 2000 example_socket ''s1''
          (Some fresh_token) two_line_relay) = AckOk \<and>
   map_option rec_summary
     (recordingSession
        (fst (complete_session example_platform (\<lambda>transcript. Some []) 2000 example_socket ''s1''
                (Some fresh_token) two_line_relay)) ''s1'') = Some (Some []) \<and>
   map_option rec_status
     (recordingSession
        (fst (complete_session example_platform (\<lambda>transcript. Some []) 2000 example_socket ''s1''
                (Some fresh_token) two_line_relay)) ''s1'') = Some St_completed \<and>
   map_option rec_summary
     (recordingSession
        (fst (complete_POST (\<lambda>transcript. Some []) 2000 (Some ''u1'') ''s1'' two_line_relay)) ''s1'')
     = Some (Some ''Speaker A: hello Speaker B: hi'')"
proof -
  have tok: "complete_token_check example_platform 2000 example_socket ''s1'' fresh_token
               = Inr \<lparr>tok_sessionId = ''s1'', tok_userId = ''u1'', tok_exp = 3600000\<rparr>"
    by (simp add: complete_token_check_def verifySocketToken_def fresh_token_def decode_def
        example_platform_def example_socket_def utf8_length_def)
  have found: "findRecording two_line_relay ''s1'' (data_userId example_socket) = Some two_line_recording"
    by (simp add: findRecording_def two_line_relay_def example_relay_def example_socket_def
        two_line_recording_def example_recording_def)
  have look: "recordingSession two_line_relay ''s1'' = Some two_line_recording"
    by (simp add: two_line_relay_def)
  have uid: "rec_userId two_line_recording = ''u1''"
    by (simp add: two_line_recording_def example_recording_def)
  have ne: "fresh_token \<noteq> []"
    by (simp add: fresh_token_def)
  have gen: "generated_summary (\<lambda>transcript. Some []) two_line_recording = []"
    by code_simp
  have fb: "fallback_summary two_line_recording = ''Speaker A: hello Speaker B: hi''"
    by code_simp
  have sock: "complete_session example_platform (\<lambda>transcript. Some []) 2000 example_socket ''s1''
                (Some fresh_token) two_line_relay
        = (emit (ToRoom (sessionRoom ''s1'')) (Session_status ''s1'' St_completed (Some []))
             (mark_completed 2000 ''s1'' ''Socket summary ready'' []
                (two_line_recording\<lparr>rec_status := St_processing\<rparr>)
                (mark_processing ''s1'' ''Socket summary request'' two_line_recording two_line_relay)),
           AckOk)"
    by (simp add: complete_session_def tok found ne gen Let_def)
  have rest: "fst (complete_POST (\<lambda>transcript. Some []) 2000 (Some ''u1'') ''s1'' two_line_relay)
        = mark_completed 2000 ''s1'' ''Summary ready'' ''Speaker A: hello Speaker B: hi''
            (two_line_recording\<lparr>rec_status := St_processing\<rparr>)
            (mark_processing ''s1'' ''Generating summary'' two_line_recording two_line_relay)"
    by (simp add: complete_POST_def look uid gen fb Let_def)
  show ?thesis
    unfolding sock rest
    by (simp add: emit_def mark_completed_def mark_processing_def)
qed

section \<open>Properties of the recorder hook\<close>

lemma discardPending_effect:
  "chunkQueue (discardPending h) = [] \<and> queueDepth (discardPending h) = 0 \<and>
   machine (discardPending h) = recorderMachine (machine h) RESET"
  by (simp add: discardPending_def log_def send_def)

lemma recorderMachine_reset_dropped:
  "s = Recording \<or> s = Paused \<Longrightarrow> recorderMachine (s, c) RESET = (s, c)"
  by auto


text \<open>
  Claim C6 at a failing input.  Two chunks were captured while the browser
  was offline, so the machine is in \<open>recording\<close> with a queued count of two
  and the queue holds two chunks.  \<open>discardPending\<close> empties the queue and
  sets the queue depth to zero, but the \<open>RESET\<close> it sends is dropped by the
  machine in \<open>recording\<close>: the queued count is still two.
\<close>

theorem discardPending_keeps_count_while_recording:
  "fst (machine offline_backlog) = Recording \<and>
   length (chunkQueue offline_backlog) = 2 \<and>
   queuedChunks (snd (machine offline_backlog)) = 2 \<and>
   chunkQueue (discardPending offline_backlog) = [] \<and>
   queueDepth (discardPending offline_backlog) = 0 \<and>
   fst (machine (discardPending offline_backlog)) = Recording \<and>
   queuedChunks (snd (machine (discardPending offline_backlog))) = 2"
proof -
  have m: "machine offline_backlog = (Recording, initialContext\<lparr>queuedChunks := 2\<rparr>)"
    by (simp add: offline_backlog_def run_def session_created_def handleData_def flushQueue_def
        flush_loop_def finish_flush_def send_def log_def initial_hook_def initialRecorder_def
        initialContext_def incrementQueued_def Let_def)
  have q: "length (chunkQueue offline_backlog) = 2"
    by (simp add: offline_backlog_def run_def session_created_def handleData_def flushQueue_def
        flush_loop_def finish_flush_def send_def log_def initial_hook_def Let_def)
  show ?thesis
    using q by (simp add: discardPending_effect m)
qed











section \<open>Properties of the delivery queue\<close>

lemma flush_loop_single_flight:
  assumes "inflight h = []" "flushPromise h"
  shows "single_flight (flush_loop onLine h)"
  using assms
  by (simp add: single_flight_def flush_loop_def finish_flush_def Let_def split: list.splits)

lemma flushQueue_single_flight:
  assumes "single_flight h"
  shows "single_flight (flushQueue onLine h)"
proof (cases "flushPromise h \<or> sessionId h = None \<or> (chunkQueue h = [] \<and> \<not> uploading h)")
  case True
  with assms show ?thesis by (auto simp: flushQueue_def)
next
  case False
  with assms have "inflight h = []" by (auto simp: single_flight_def)
  then have "single_flight (flush_loop onLine (h\<lparr>uploading := True, flushPromise := True\<rparr>))"
    by (intro flush_loop_single_flight) simp_all
  with False show ?thesis by (auto simp: flushQueue_def)
qed

lemma upload_settled_single_flight:
  assumes "single_flight h"
  shows "single_flight (upload_settled i ok onLine h)"
proof (cases "i < length (inflight h)")
  case False
  with assms show ?thesis by (simp add: upload_settled_def)
next
  case True
  with assms have i: "i = 0" and fp: "flushPromise h" and len: "length (inflight h) = 1"
    by (auto simp: single_flight_def)
  show ?thesis
  proof (cases ok)
    case True
    have "single_flight (flush_loop onLine
            ((log (Uploaded_chunk (snd (inflight h ! 0)))
               (send CHUNK_UPLOADED (h\<lparr>inflight := []\<rparr>)))
              \<lparr>queueDepth := length (chunkQueue h),
                delivered := delivered h @ [(snd (inflight h ! 0), fst (inflight h ! 0))]\<rparr>))"
      using fp by (intro flush_loop_single_flight) (simp_all add: log_def send_def)
    with True i len show ?thesis
      by (simp add: upload_settled_def Let_def log_def send_def)
  next
    case False
    with i len show ?thesis
      by (simp add: upload_settled_def Let_def send_def finish_flush_def single_flight_def)
  qed
qed

lemma step_single_flight:
  assumes "single_flight h"
  shows "single_flight (step h e)"
proof (cases e)
  case (HandleData data onLine)
  have "single_flight (send CHUNK_QUEUED
          (h\<lparr>chunkQueue := chunkQueue h @ [\<lparr>blob = data, durationMs = CHUNK_MS\<rparr>],
             queueDepth := Suc (length (chunkQueue h))\<rparr>))"
    using assms by (simp add: single_flight_def send_def)
  then have "single_flight (flushQueue onLine (send CHUNK_QUEUED
          (h\<lparr>chunkQueue := chunkQueue h @ [\<lparr>blob = data, durationMs = CHUNK_MS\<rparr>],
             queueDepth := Suc (length (chunkQueue h))\<rparr>)))"
    by (rule flushQueue_single_flight)
  with HandleData assms show ?thesis by (simp add: handleData_def Let_def)
next
  case (FlushQueue onLine)
  with assms show ?thesis by (simp add: flushQueue_single_flight)
next
  case (UploadSettled i ok onLine)
  with assms show ?thesis by (simp add: upload_settled_single_flight)
next
  case DiscardPending
  with assms show ?thesis by (simp add: single_flight_def discardPending_def log_def send_def)
next
  case (SessionCreated recording_id token src)
  with assms show ?thesis by (simp add: single_flight_def session_created_def log_def send_def)
next
  case (ClearSessionState resetMachine)
  with assms show ?thesis
    by (simp add: single_flight_def clearSessionState_def resetMedia_def disconnectSocket_def
        send_def Let_def)
next
  case (Send ev)
  with assms show ?thesis by (simp add: single_flight_def send_def)
next
  case (CompleteSession canUseSocket viaSocket viaREST)
  with assms show ?thesis
    by (simp add: single_flight_def completeSession_def clearSessionState_def resetMedia_def
        disconnectSocket_def send_def log_def Let_def split: outcome.splits)
qed

lemma run_snoc: "run (evs @ [e]) h = step (run evs h) e"
  by (simp add: run_def)

lemma run_single_flight:
  "single_flight h \<Longrightarrow> single_flight (run evs h)"
  by (induction evs rule: rev_induct) (simp_all add: run_def step_single_flight)

text \<open>
  Claim C2.  In every execution of the hook, whatever the events and their
  order, at most one upload attempt is outstanding; and a call of
  \<open>flushQueue\<close> made while a flush is in progress changes nothing: it
  returns the promise of the flush in progress and starts no other.
\<close>

theorem at_most_one_upload_in_flight:
  "length (inflight (run evs initial_hook)) \<le> 1 \<and>
   (flushPromise (run evs initial_hook) \<longrightarrow>
      flushQueue onLine (run evs initial_hook) = run evs initial_hook)"
proof -
  have "single_flight initial_hook"
    by (simp add: single_flight_def initial_hook_def)
  then have "single_flight (run evs initial_hook)" by (rule run_single_flight)
  then show ?thesis by (simp add: single_flight_def flushQueue_def)
qed

theorem at_most_one_upload_in_flight_witness:
  "flushPromise (run [SessionCreated ''s1'' fresh_token Mic, HandleData ''a'' True] initial_hook) \<and>
   length (inflight (run [SessionCreated ''s1'' fresh_token Mic, HandleData ''a'' True] initial_hook)) \<le> 1 \<and>
   flushQueue True (run [SessionCreated ''s1'' fresh_token Mic, HandleData ''a'' True] initial_hook)
     = run [SessionCreated ''s1'' fresh_token Mic, HandleData ''a'' True] initial_hook"
proof -
  have "flushPromise (run [SessionCreated ''s1'' fresh_token Mic, HandleData ''a'' True] initial_hook)"
    by (simp add: run_def session_created_def handleData_def flushQueue_def flush_loop_def
        send_def log_def initial_hook_def Let_def)
  with at_most_one_upload_in_flight
    [of "[SessionCreated ''s1'' fresh_token Mic, HandleData ''a'' True]" True]
  show ?thesis by simp
qed

lemma flush_loop_queue_inv:
  assumes "queue_inv E h" "inflight h = []" "flushPromise h"
  shows "queue_inv E (flush_loop onLine h)"
proof -
  have sf: "single_flight (flush_loop onLine h)"
    using assms(2,3) by (rule flush_loop_single_flight)
  show ?thesis
  proof (cases "chunkQueue h")
    case Nil
    with assms(1,2) show ?thesis
      by (simp add: queue_inv_def single_flight_def flush_loop_def finish_flush_def
          delivered_chunks_def delivered_indices_def)
  next
    case (Cons c rest)
    show ?thesis
    proof (cases onLine)
      case False
      with assms(1,2) show ?thesis
        by (auto simp: queue_inv_def single_flight_def flush_loop_def finish_flush_def
            delivered_chunks_def delivered_indices_def)
    next
      case True
      from assms(1) have s: "sessionId h \<noteq> None" by (simp add: queue_inv_def)
      have fl: "flush_loop onLine h =
                  h\<lparr>networkStatus := Online, chunkQueue := rest, chunkCounter := chunkCounter h + 1,
                    inflight := [(c, chunkCounter h + 1)]\<rparr>"
        using True Cons s assms(2) by (simp add: flush_loop_def Let_def)
      from assms(1,2) have
        ch: "delivered_chunks h @ chunkQueue h = E"
        and so: "sorted_wrt (<) (delivered_indices h)"
        and le: "\<forall>i\<in>set (delivered_indices h). i \<le> chunkCounter h"
        by (simp_all add: queue_inv_def)
      from le have lt: "\<forall>i\<in>set (delivered_indices h). i < chunkCounter h + 1" by auto
      have "sorted_wrt (<) (delivered_indices h @ [chunkCounter h + 1])"
        using so lt by (simp add: sorted_wrt_append)
      moreover have "\<forall>i\<in>set (delivered_indices h @ [chunkCounter h + 1]). i \<le> chunkCounter h + 1"
        using le by auto
      ultimately show ?thesis
        using sf s ch Cons unfolding fl queue_inv_def
        by (simp add: delivered_chunks_def delivered_indices_def)
    qed
  qed
qed

lemma flushQueue_queue_inv:
  assumes "queue_inv E h"
  shows "queue_inv E (flushQueue onLine h)"
proof (cases "flushPromise h \<or> sessionId h = None \<or> (chunkQueue h = [] \<and> \<not> uploading h)")
  case True
  with assms show ?thesis by (auto simp: flushQueue_def)
next
  case False
  with assms have e: "inflight h = []" by (auto simp: queue_inv_def single_flight_def)
  with assms have "queue_inv E (h\<lparr>uploading := True, flushPromise := True\<rparr>)"
    by (simp add: queue_inv_def single_flight_def delivered_chunks_def delivered_indices_def)
  then have "queue_inv E (flush_loop onLine (h\<lparr>uploading := True, flushPromise := True\<rparr>))"
    using e by (intro flush_loop_queue_inv) simp_all
  with False show ?thesis by (auto simp: flushQueue_def)
qed

lemma upload_settled_queue_inv:
  assumes "queue_inv E h"
  shows "queue_inv E (upload_settled i ok onLine h)"
proof (cases "i < length (inflight h)")
  case False
  with assms show ?thesis by (simp add: upload_settled_def)
next
  case True
  with assms obtain c n where i: "i = 0" and fp: "flushPromise h" and inf: "inflight h = [(c, n)]"
    by (cases "inflight h") (auto simp: queue_inv_def single_flight_def)
  from assms inf have
    s: "sessionId h \<noteq> None"
    and ch: "delivered_chunks h @ c # chunkQueue h = E"
    and so: "sorted_wrt (<) (delivered_indices h @ [n])"
    and le: "\<forall>i\<in>set (delivered_indices h @ [n]). i \<le> chunkCounter h"
    by (simp_all add: queue_inv_def)
  show ?thesis
  proof (cases ok)
    case True
    let ?h3 = "(log (Uploaded_chunk n) (send CHUNK_UPLOADED (h\<lparr>inflight := []\<rparr>)))
                 \<lparr>queueDepth := length (chunkQueue h), delivered := delivered h @ [(n, c)]\<rparr>"
    have "queue_inv E ?h3"
      using s ch so le
      by (simp add: queue_inv_def single_flight_def log_def send_def delivered_chunks_def
          delivered_indices_def)
    then have "queue_inv E (flush_loop onLine ?h3)"
      using fp by (intro flush_loop_queue_inv) (simp_all add: log_def send_def)
    with True i inf show ?thesis
      by (simp add: upload_settled_def Let_def log_def send_def)
  next
    case False
    from so have "sorted_wrt (<) (delivered_indices h)" by (simp add: sorted_wrt_append)
    with False i inf s ch le show ?thesis
      by (simp add: upload_settled_def Let_def send_def finish_flush_def queue_inv_def
          single_flight_def delivered_chunks_def delivered_indices_def)
  qed
qed

lemma handleData_queue_inv:
  assumes "queue_inv E h"
  shows "queue_inv (E @ enqueued [HandleData data onLine]) (handleData data onLine h)"
proof (cases "data = []")
  case True
  with assms show ?thesis by (simp add: handleData_def)
next
  case False
  have "queue_inv (E @ [\<lparr>blob = data, durationMs = CHUNK_MS\<rparr>])
          (send CHUNK_QUEUED
             (h\<lparr>chunkQueue := chunkQueue h @ [\<lparr>blob = data, durationMs = CHUNK_MS\<rparr>],
                queueDepth := Suc (length (chunkQueue h))\<rparr>))"
    using assms
    by (auto simp: queue_inv_def single_flight_def send_def delivered_chunks_def
        delivered_indices_def)
  then have "queue_inv (E @ [\<lparr>blob = data, durationMs = CHUNK_MS\<rparr>])
          (flushQueue onLine (send CHUNK_QUEUED
             (h\<lparr>chunkQueue := chunkQueue h @ [\<lparr>blob = data, durationMs = CHUNK_MS\<rparr>],
                queueDepth := Suc (length (chunkQueue h))\<rparr>)))"
    by (rule flushQueue_queue_inv)
  with False show ?thesis by (simp add: handleData_def Let_def)
qed

lemma step_queue_inv:
  assumes "queue_event e" "queue_inv E h"
  shows "queue_inv (E @ enqueued [e]) (step h e)"
proof (cases e)
  case (HandleData data onLine)
  with assms(2) show ?thesis
    using handleData_queue_inv[of E h data onLine] by simp
next
  case (FlushQueue onLine)
  with assms(2) show ?thesis by (simp add: flushQueue_queue_inv)
next
  case (UploadSettled i ok onLine)
  with assms(2) show ?thesis by (simp add: upload_settled_queue_inv)
qed (use assms(1) in simp_all)

lemma enqueued_append: "enqueued (xs @ ys) = enqueued xs @ enqueued ys"
proof (induction xs)
  case Nil
  then show ?case by simp
next
  case (Cons e xs)
  then show ?case by (cases e) simp_all
qed

lemma run_queue_inv:
  assumes "\<forall>e\<in>set evs. queue_event e" "queue_inv E h"
  shows "queue_inv (E @ enqueued evs) (run evs h)"
  using assms(1)
proof (induction evs rule: rev_induct)
  case Nil
  with assms(2) show ?case by (simp add: run_def)
next
  case (snoc e evs)
  then have "queue_inv (E @ enqueued evs) (run evs h)" and "queue_event e" by simp_all
  from step_queue_inv[OF this(2,1)] show ?case
    by (simp add: run_snoc enqueued_append)
qed


lemma flush_loop_gapless:
  assumes "gapless h"
  shows "gapless (flush_loop onLine h)"
  using assms
  by (auto simp: gapless_def flush_loop_def finish_flush_def Let_def delivered_indices_def
      split: list.splits)

lemma flushQueue_gapless:
  assumes "gapless h"
  shows "gapless (flushQueue onLine h)"
proof -
  from assms have "gapless (h\<lparr>uploading := True, flushPromise := True\<rparr>)"
    by (simp add: gapless_def delivered_indices_def)
  then have "gapless (flush_loop onLine (h\<lparr>uploading := True, flushPromise := True\<rparr>))"
    by (rule flush_loop_gapless)
  with assms show ?thesis by (simp add: flushQueue_def)
qed

lemma upload_succeeded_gapless:
  assumes "gapless h" "single_flight h"
  shows "gapless (upload_settled i True onLine h)"
proof (cases "i < length (inflight h)")
  case False
  with assms show ?thesis by (simp add: upload_settled_def)
next
  case True
  with assms(2) obtain c n where i: "i = 0" and inf: "inflight h = [(c, n)]"
    by (cases "inflight h") (auto simp: single_flight_def)
  let ?h3 = "(log (Uploaded_chunk n) (send CHUNK_UPLOADED (h\<lparr>inflight := []\<rparr>)))
               \<lparr>queueDepth := length (chunkQueue h), delivered := delivered h @ [(n, c)]\<rparr>"
  have "gapless ?h3"
    using assms(1) inf by (simp add: gapless_def log_def send_def delivered_indices_def)
  then have "gapless (flush_loop onLine ?h3)" by (rule flush_loop_gapless)
  with i inf show ?thesis
    by (simp add: upload_settled_def Let_def log_def send_def)
qed

lemma step_gapless:
  assumes "queue_event e" "\<not> failed_upload e" "single_flight h" "gapless h"
  shows "gapless (step h e)"
proof (cases e)
  case (HandleData data onLine)
  have "gapless (send CHUNK_QUEUED
          (h\<lparr>chunkQueue := chunkQueue h @ [\<lparr>blob = data, durationMs = CHUNK_MS\<rparr>],
             queueDepth := Suc (length (chunkQueue h))\<rparr>))"
    using assms(4) by (simp add: gapless_def send_def delivered_indices_def)
  then have "gapless (flushQueue onLine (send CHUNK_QUEUED
          (h\<lparr>chunkQueue := chunkQueue h @ [\<lparr>blob = data, durationMs = CHUNK_MS\<rparr>],
             queueDepth := Suc (length (chunkQueue h))\<rparr>)))"
    by (rule flushQueue_gapless)
  with HandleData assms(4) show ?thesis by (simp add: handleData_def Let_def)
next
  case (FlushQueue onLine)
  with assms(4) show ?thesis by (simp add: flushQueue_gapless)
next
  case (UploadSettled i ok onLine)
  with assms show ?thesis by (simp add: upload_succeeded_gapless)
qed (use assms(1) in simp_all)

lemma run_gapless:
  assumes "\<forall>e\<in>set evs. queue_event e \<and> \<not> failed_upload e" "single_flight h" "gapless h"
  shows "gapless (run evs h)"
  using assms(1)
proof (induction evs rule: rev_induct)
  case Nil
  with assms(3) show ?case by (simp add: run_def)
next
  case (snoc e evs)
  then have g: "gapless (run evs h)" and e: "queue_event e" "\<not> failed_upload e" by simp_all
  have "single_flight (run evs h)" using assms(2) by (rule run_single_flight)
  from step_gapless[OF e this g] show ?case by (simp add: run_snoc)
qed

lemma gapless_delivered:
  assumes "gapless h"
  shows "delivered_indices h = [1..<Suc (length (delivered h))]"
proof -
  let ?d = "delivered_indices h"
  from assms have eq: "?d @ map snd (inflight h) = [1..<Suc (chunkCounter h)]"
    by (simp add: gapless_def)
  then have "length ?d + length (inflight h) = chunkCounter h"
    by (metis One_nat_def diff_Suc_1 length_append length_map length_upt)
  then have le: "1 + length ?d \<le> Suc (chunkCounter h)" by simp
  have "?d = take (length ?d) (?d @ map snd (inflight h))" by simp
  also have "\<dots> = take (length ?d) [1..<Suc (chunkCounter h)]" by (simp only: eq)
  also have "\<dots> = [1..<1 + length ?d]" using le by (rule take_upt)
  finally show ?thesis by (simp add: delivered_indices_def)
qed

lemma session_created_queue_inv:
  "queue_inv [] (session_created recording_id token src initial_hook)"
  by (simp add: queue_inv_def single_flight_def session_created_def send_def log_def
      initial_hook_def delivered_chunks_def delivered_indices_def)

lemma session_created_gapless:
  "gapless (session_created recording_id token src initial_hook)"
  by (simp add: gapless_def session_created_def send_def log_def initial_hook_def
      delivered_indices_def)

text \<open>
  Claim C1, as stated, asks that the delivered sequence indices form a
  gapless run.  When the upload of the second chunk fails once and is
  retried, the two chunks are delivered in the order of their capture, with
  the indices 1 and 3.
\<close>

theorem retried_chunk_skips_an_index:
  "delivered_indices (run failed_then_retried (session_created ''s1'' fresh_token Mic initial_hook))
     = [1, 3] \<and>
   delivered_chunks (run failed_then_retried (session_created ''s1'' fresh_token Mic initial_hook))
     = [\<lparr>blob = ''a'', durationMs = CHUNK_MS\<rparr>, \<lparr>blob = ''b'', durationMs = CHUNK_MS\<rparr>]"
  by (simp add: failed_then_retried_def run_def session_created_def handleData_def flushQueue_def
      flush_loop_def finish_flush_def upload_settled_def send_def log_def initial_hook_def
      delivered_indices_def delivered_chunks_def Let_def)

text \<open>
  Claim C1, amended.  For every sequence of enqueue, drain and upload-settled
  operations on the queue of an active session: the chunks delivered, then
  the chunk in flight, then the chunks queued are the chunks captured, in the
  order of their capture, so that chunks are delivered in that order and a
  chunk whose delivery failed is delivered before any chunk enqueued after
  it; a failed delivery puts the chunk back at the head of the queue and
  delivers nothing; the delivered sequence indices are strictly increasing;
  and they are the gapless run from 1 as long as no delivery attempt has
  failed.
\<close>

theorem delivery_order_and_indices:
  assumes "\<forall>e\<in>set evs. queue_event e"
    and "h = run evs (session_created recording_id token src initial_hook)"
  shows "delivered_chunks h @ map fst (inflight h) @ chunkQueue h = enqueued evs \<and>
         sorted_wrt (<) (delivered_indices h) \<and>
         ((\<forall>e\<in>set evs. \<not> failed_upload e) \<longrightarrow>
            delivered_indices h = [1..<Suc (length (delivered h))]) \<and>
         (\<forall>c n. inflight h = [(c, n)] \<longrightarrow>
            chunkQueue (upload_settled 0 False onLine h) = c # chunkQueue h \<and>
            inflight (upload_settled 0 False onLine h) = [] \<and>
            delivered (upload_settled 0 False onLine h) = delivered h)"
proof -
  let ?h0 = "session_created recording_id token src initial_hook"
  have inv: "queue_inv ([] @ enqueued evs) (run evs ?h0)"
    using assms(1) session_created_queue_inv by (rule run_queue_inv)
  then have 1: "delivered_chunks h @ map fst (inflight h) @ chunkQueue h = enqueued evs"
    and "sorted_wrt (<) (delivered_indices h @ map snd (inflight h))"
    unfolding assms(2) by (simp_all add: queue_inv_def)
  then have 2: "sorted_wrt (<) (delivered_indices h)" by (simp add: sorted_wrt_append)
  have 3: "(\<forall>e\<in>set evs. \<not> failed_upload e) \<longrightarrow>
            delivered_indices h = [1..<Suc (length (delivered h))]"
  proof
    assume "\<forall>e\<in>set evs. \<not> failed_upload e"
    with assms(1) have "\<forall>e\<in>set evs. queue_event e \<and> \<not> failed_upload e" by simp
    moreover have "single_flight ?h0" using session_created_queue_inv by (simp add: queue_inv_def)
    ultimately have "gapless (run evs ?h0)" using session_created_gapless by (rule run_gapless)
    then show "delivered_indices h = [1..<Suc (length (delivered h))]"
      unfolding assms(2) by (rule gapless_delivered)
  qed
  have 4: "\<forall>c n. inflight h = [(c, n)] \<longrightarrow>
            chunkQueue (upload_settled 0 False onLine h) = c # chunkQueue h \<and>
            inflight (upload_settled 0 False onLine h) = [] \<and>
            delivered (upload_settled 0 False onLine h) = delivered h"
    by (simp add: upload_settled_def Let_def send_def finish_flush_def)
  from 1 2 3 4 show ?thesis by blast
qed

theorem delivery_order_and_indices_witness:
  "delivered_chunks (run failed_then_retried (session_created ''s1'' fresh_token Mic initial_hook))
     @ map fst (inflight (run failed_then_retried (session_created ''s1'' fresh_token Mic initial_hook)))
     @ chunkQueue (run failed_then_retried (session_created ''s1'' fresh_token Mic initial_hook))
     = enqueued failed_then_retried \<and>
   enqueued failed_then_retried
     = [\<lparr>blob = ''a'', durationMs = CHUNK_MS\<rparr>, \<lparr>blob = ''b'', durationMs = CHUNK_MS\<rparr>] \<and>
   sorted_wrt (<)
     (delivered_indices (run failed_then_retried (session_created ''s1'' fresh_token Mic initial_hook)))"
proof -
  have q: "\<forall>e\<in>set failed_then_retried. queue_event e"
    by (simp add: failed_then_retried_def)
  have e: "enqueued failed_then_retried
     = [\<lparr>blob = ''a'', durationMs = CHUNK_MS\<rparr>, \<lparr>blob = ''b'', durationMs = CHUNK_MS\<rparr>]"
    by (simp add: failed_then_retried_def)
  from delivery_order_and_indices[OF q refl, of "''s1''" fresh_token Mic True] e
  show ?thesis by simp
qed

end
